theory Spec2Isabelle
  imports Main
begin

section \<open>Data model\<close>

text \<open>
  The payment reconciliation code of the repository lives in two files:
  \<^verbatim>\<open>src/services/recharge.ts\<close> (\<^verbatim>\<open>RechargeService.startPaymentPolling\<close>, the polling
  engine) and \<^verbatim>\<open>src/utils/paymentManager.ts\<close> (\<^verbatim>\<open>PaymentManager\<close>, the controller).
  Both are asynchronous, so the embedding is an event-driven state machine: one record
  \<open>world\<close> holds everything the code can read or write (the manager's \<^verbatim>\<open>this.state\<close>,
  the closure variables of every polling loop, the pending timers, the status queries in
  flight, the registered DOM listeners), and every source function is a function from
  worlds to worlds. What the environment does (a timer fires, a query resolves or
  rejects, the page regains focus, the caller invokes a public method) is an \<open>event\<close>.
\<close>

datatype env_type = WEB | WEAPP | OTHER_ENV

text \<open>
  \<^verbatim>\<open>PaymentStatusResponse\<close>. The object is parsed from the gateway's JSON, so each
  checked field may be missing at run time whatever the interface declares: a field is
  \<open>None\<close> when it is \<^verbatim>\<open>undefined\<close> or \<^verbatim>\<open>null\<close>. \<open>amount\<close> is a number of cents.
\<close>

record PaymentStatusResponse =
  orderId :: string
  amount :: "int option"
  description :: "string option"
  createTime :: "string option"
  payTime :: "string option"
  attach :: "string option"

text \<open>
  The caller's callbacks object \<^verbatim>\<open>{onSuccess?, onFailed?, onTimeout?}\<close>. A function
  is opaque; it is known by an identity (a number the caller chooses), and \<open>None\<close> is
  an absent member. The callbacks are taken to return normally and not to call back
  into the manager.
\<close>

record callbacks =
  onSuccess :: "nat option"
  onFailed :: "nat option"
  onTimeout :: "nat option"

definition no_callbacks :: callbacks where
  "no_callbacks = \<lparr>onSuccess = None, onFailed = None, onTimeout = None\<rparr>"

text \<open>What a callback is called with.\<close>

datatype payload =
    Response PaymentStatusResponse
  | StatusMessage string string
  | NoPayload

datatype signal = OnSuccess payload | OnFailed payload | OnTimeout

datatype origin = ByPoller nat | ByOnce | ByManual

text \<open>
  The user notifications of the source (\<^verbatim>\<open>Taro.showToast\<close>, \<^verbatim>\<open>Taro.showModal\<close>), one
  constructor per call site: the order-check toast of \<^verbatim>\<open>checkPaymentStatusOnce\<close> and
  \<^verbatim>\<open>manualCheckPaymentStatus\<close>, the failure toast of the polling wrapper (with its
  title), the timeout modal, and the two toasts of the manual check.
\<close>

datatype notice =
    ToastOrderCheckFailed
  | ToastFailure string
  | ModalQueryTimeout
  | ToastNotPaidYet
  | ToastQueryFailed

text \<open>
  The observable trace. \<open>GetPaymentStatus\<close> is a status query sent to the gateway,
  \<open>PollerCalls pid s\<close> is polling loop \<open>pid\<close> invoking the member of its options,
  \<open>Called f x\<close> is the caller's function \<open>f\<close> being invoked, \<open>ManualReturns\<close> is the
  value the promise of \<^verbatim>\<open>manualCheckPaymentStatus\<close> resolves to, and \<open>OnceRejected\<close> is
  the promise of \<^verbatim>\<open>checkPaymentStatusOnce\<close> rejecting.
\<close>

datatype effect =
    GetPaymentStatus origin string
  | PollerCalls nat signal
  | Called nat payload
  | Notify notice
  | ManualReturns "PaymentStatusResponse option"
  | OnceRejected

text \<open>
  The closure of one call of \<^verbatim>\<open>startPaymentPolling\<close>: its parameters and its three
  local variables \<^verbatim>\<open>attempts\<close>, \<^verbatim>\<open>isPolling\<close>, \<^verbatim>\<open>timeoutId\<close>. The only caller in the
  repository is \<^verbatim>\<open>PaymentManager.startPolling\<close>, which passes three wrappers around
  the user's callbacks; \<open>captured\<close> is the callbacks object those wrappers close over.
\<close>

record poller =
  poll_orderId :: string
  expectedAttach :: string
  captured :: callbacks
  maxAttempts :: int
  interval :: int
  attempts :: int
  isPolling :: bool
  timeoutId :: "nat option"

record polling_options =
  opt_callbacks :: callbacks
  opt_maxAttempts :: "int option"
  opt_interval :: "int option"

text \<open>
  \<^verbatim>\<open>PaymentState\<close>. \<open>pollingCleanup\<close> is the cleanup closure of a polling loop, known
  by the loop's index; \<open>visibilityChangeHandler\<close> is the closure installed by
  \<^verbatim>\<open>setupVisibilityChangeHandler\<close>, known by the callbacks it closes over.
\<close>

record PaymentState =
  state_orderId :: string
  state_attach :: string
  state_amount :: int
  state_isPolling :: bool
  pollingCleanup :: "nat option"
  visibilityChangeHandler :: "callbacks option"
  state_callbacks :: "callbacks option"

datatype continuation = PollCont nat | OnceCont | ManualCont

datatype query_outcome = Resolved PaymentStatusResponse | Rejected

text \<open>
  \<open>document_hidden\<close> is \<open>None\<close> where \<^verbatim>\<open>typeof document === 'undefined'\<close>. A pending
  timer is (timer id, polling loop, delay); a query in flight is (query id, what runs
  when it completes). Timer ids are fresh and count as truthy, as the positive ids of a
  browser do.
\<close>

record world =
  env :: env_type
  document_hidden :: "bool option"
  state :: "PaymentState option"
  visibilitychange_listeners :: "callbacks list"
  focus_listeners :: "callbacks list"
  pollers :: "poller list"
  timers :: "(nat \<times> nat \<times> int) list"
  next_timer :: nat
  inflight :: "(nat \<times> continuation) list"
  next_query :: nat
  trace :: "effect list"

definition init :: "env_type \<Rightarrow> bool option \<Rightarrow> world" where
  "init e d = \<lparr>env = e, document_hidden = d, state = None,
     visibilitychange_listeners = [], focus_listeners = [], pollers = [], timers = [],
     next_timer = 0, inflight = [], next_query = 0, trace = []\<rparr>"

section \<open>The completeness check\<close>

text \<open>
  \<^verbatim>\<open>result.amount && result.description && result.createTime && result.payTime &&
  result.attach\<close>, used as a condition: every operand must be truthy. A number is
  truthy unless it is 0, a string unless it is empty, and a missing member is falsy.
\<close>

definition truthy_number :: "int option \<Rightarrow> bool" where
  "truthy_number x = (case x of None \<Rightarrow> False | Some n \<Rightarrow> n \<noteq> 0)"

definition truthy_string :: "string option \<Rightarrow> bool" where
  "truthy_string x = (case x of None \<Rightarrow> False | Some s \<Rightarrow> s \<noteq> [])"

definition isPaymentComplete :: "PaymentStatusResponse \<Rightarrow> bool" where
  "isPaymentComplete result =
     (truthy_number (amount result) \<and> truthy_string (description result) \<and>
      truthy_string (createTime result) \<and> truthy_string (payTime result) \<and>
      truthy_string (attach result))"

text \<open>
  The two string literals the polling loop puts into what it hands to \<^verbatim>\<open>onFailed\<close>,
  and the default title of the failure toast, as their UTF-8 bytes (the source text is
  Chinese).
\<close>

definition order_check_failed_text :: string where
  "order_check_failed_text =
     [CHR 0xE8, CHR 0xAE, CHR 0xA2, CHR 0xE5, CHR 0x8D, CHR 0x95, CHR 0xE6, CHR 0xA0, CHR 0xA1,
      CHR 0xE9, CHR 0xAA, CHR 0x8C, CHR 0xE5, CHR 0xA4, CHR 0xB1, CHR 0xE8, CHR 0xB4, CHR 0xA5]"

definition query_failed_text :: string where
  "query_failed_text =
     [CHR 0xE6, CHR 0x94, CHR 0xAF, CHR 0xE4, CHR 0xBB, CHR 0x98, CHR 0xE7, CHR 0x8A, CHR 0xB6,
      CHR 0xE6, CHR 0x80, CHR 0x81, CHR 0xE6, CHR 0x9F, CHR 0xA5, CHR 0xE8, CHR 0xAF, CHR 0xA2,
      CHR 0xE5, CHR 0xA4, CHR 0xB1, CHR 0xE8, CHR 0xB4, CHR 0xA5]"

definition payment_failed_text :: string where
  "payment_failed_text =
     [CHR 0xE6, CHR 0x94, CHR 0xAF, CHR 0xE4, CHR 0xBB, CHR 0x98, CHR 0xE5, CHR 0xA4, CHR 0xB1,
      CHR 0xE8, CHR 0xB4, CHR 0xA5]"

section \<open>The polling engine (recharge.ts)\<close>

definition emit :: "effect \<Rightarrow> world \<Rightarrow> world" where
  "emit e w = w\<lparr>trace := trace w @ [e]\<rparr>"

text \<open>An optional call \<^verbatim>\<open>f?.(x)\<close> of a caller's function.\<close>

definition call_optional :: "nat option \<Rightarrow> payload \<Rightarrow> world \<Rightarrow> world" where
  "call_optional f x w = (case f of None \<Rightarrow> w | Some g \<Rightarrow> emit (Called g x) w)"

text \<open>\<^verbatim>\<open>timeoutId = setTimeout(poll, interval)\<close> inside the closure of loop \<open>pid\<close>.\<close>

definition setTimeout_poll :: "nat \<Rightarrow> world \<Rightarrow> world" where
  "setTimeout_poll pid w =
     (let p = pollers w ! pid; t = next_timer w in
      w\<lparr>pollers := (pollers w)[pid := p\<lparr>timeoutId := Some t\<rparr>],
        timers := timers w @ [(t, pid, interval p)],
        next_timer := Suc t\<rparr>)"

text \<open>
  \<^verbatim>\<open>startPaymentPolling(orderId, expectedAttach, options)\<close>: a new closure with
  \<^verbatim>\<open>attempts = 0\<close>, \<^verbatim>\<open>isPolling = true\<close>, the defaults 60 and 2000, and the first
  timer. The result names the cleanup function it returns by the loop's index.
\<close>

definition startPaymentPolling ::
  "string \<Rightarrow> string \<Rightarrow> polling_options \<Rightarrow> world \<Rightarrow> nat \<times> world" where
  "startPaymentPolling oid expected opts w =
     (let pid = length (pollers w);
          p = \<lparr>poll_orderId = oid, expectedAttach = expected,
               captured = opt_callbacks opts,
               maxAttempts = (case opt_maxAttempts opts of None \<Rightarrow> 60 | Some m \<Rightarrow> m),
               interval = (case opt_interval opts of None \<Rightarrow> 2000 | Some i \<Rightarrow> i),
               attempts = 0, isPolling = True, timeoutId = None\<rparr>
      in (pid, setTimeout_poll pid (w\<lparr>pollers := pollers w @ [p]\<rparr>)))"

text \<open>
  The cleanup function returned by \<^verbatim>\<open>startPaymentPolling\<close>:
  \<^verbatim>\<open>isPolling = false; if (timeoutId) { clearTimeout(timeoutId); timeoutId = null }\<close>.
  Clearing a timer that has already fired removes nothing.
\<close>

definition polling_cleanup :: "nat \<Rightarrow> world \<Rightarrow> world" where
  "polling_cleanup pid w =
     (if pid < length (pollers w) then
        (let p = pollers w ! pid in
         case timeoutId p of
           None \<Rightarrow> w\<lparr>pollers := (pollers w)[pid := p\<lparr>isPolling := False\<rparr>]\<rparr>
         | Some t \<Rightarrow>
             w\<lparr>pollers := (pollers w)[pid := p\<lparr>isPolling := False, timeoutId := None\<rparr>],
               timers := filter (\<lambda>e. fst e \<noteq> t) (timers w)\<rparr>)
      else w)"

text \<open>
  \<^verbatim>\<open>poll\<close> up to its \<^verbatim>\<open>await\<close>: return when not polling, else count the attempt and
  send the status query.
\<close>

definition poll :: "nat \<Rightarrow> world \<Rightarrow> world" where
  "poll pid w =
     (if pid < length (pollers w) then
        (let p = pollers w ! pid in
         if \<not> isPolling p then w
         else
           (let q = next_query w in
            emit (GetPaymentStatus (ByPoller pid) (poll_orderId p))
              (w\<lparr>pollers := (pollers w)[pid := p\<lparr>attempts := attempts p + 1\<rparr>],
                 inflight := inflight w @ [(q, PollCont pid)],
                 next_query := Suc q\<rparr>)))
      else w)"

text \<open>
  \<^verbatim>\<open>poll\<close> after its \<^verbatim>\<open>await\<close>, as the branch it takes. \<open>CallOnFailed\<close>,
  \<open>CallOnSuccess\<close> and \<open>CallOnTimeout\<close> stand for \<^verbatim>\<open>isPolling = false\<close> followed by the
  call; \<open>SetTimeout\<close> for \<^verbatim>\<open>timeoutId = setTimeout(poll, interval)\<close>; \<open>Return\<close> for
  falling through with nothing done.
\<close>

datatype poll_action =
    CallOnFailed payload
  | CallOnSuccess PaymentStatusResponse
  | CallOnTimeout
  | SetTimeout
  | Return

definition poll_decide :: "poller \<Rightarrow> query_outcome \<Rightarrow> poll_action" where
  "poll_decide p out =
     (case out of
        Resolved result \<Rightarrow>
          if isPaymentComplete result then
            (if attach result \<noteq> Some (expectedAttach p) then
               CallOnFailed (Response
                 \<lparr>orderId = orderId result, amount = amount result,
                  description = Some order_check_failed_text,
                  createTime = createTime result, payTime = None,
                  attach = attach result\<rparr>)
             else CallOnSuccess result)
          else if maxAttempts p \<le> attempts p then CallOnTimeout
          else if isPolling p then SetTimeout
          else Return
      | Rejected \<Rightarrow>
          if attempts p < maxAttempts p \<and> isPolling p then SetTimeout
          else CallOnFailed (StatusMessage ''failed'' query_failed_text))"

section \<open>The payment manager (paymentManager.ts)\<close>

text \<open>
  \<^verbatim>\<open>startPolling(callbacks)\<close>: nothing without a polling state; else the previous
  loop's cleanup, a new loop of 30 attempts 3000 ms apart, and its cleanup stored.
\<close>

definition startPolling :: "callbacks \<Rightarrow> world \<Rightarrow> world" where
  "startPolling cbs w =
     (case state w of
        None \<Rightarrow> w
      | Some s \<Rightarrow>
          if \<not> state_isPolling s then w
          else
            (let w1 = (case pollingCleanup s of None \<Rightarrow> w | Some pid \<Rightarrow> polling_cleanup pid w);
                 (pid', w2) = startPaymentPolling (state_orderId s) (state_attach s)
                    \<lparr>opt_callbacks = cbs, opt_maxAttempts = Some 30, opt_interval = Some 3000\<rparr> w1
             in w2\<lparr>state := Some (s\<lparr>pollingCleanup := Some pid'\<rparr>)\<rparr>))"

text \<open>
  The two DOM listeners of \<^verbatim>\<open>setupVisibilityChangeHandler\<close>. They exist only where
  \<^verbatim>\<open>document\<close> is defined.
\<close>

definition handleVisibilityChange :: "callbacks \<Rightarrow> world \<Rightarrow> world" where
  "handleVisibilityChange cbs w =
     (if document_hidden w = Some False \<and>
         (case state w of None \<Rightarrow> False | Some s \<Rightarrow> state_isPolling s)
      then startPolling cbs w else w)"

definition handleFocus :: "callbacks \<Rightarrow> world \<Rightarrow> world" where
  "handleFocus cbs w =
     (if (case state w of None \<Rightarrow> False | Some s \<Rightarrow> state_isPolling s)
      then startPolling cbs w else w)"

text \<open>
  The function that \<^verbatim>\<open>setupVisibilityChangeHandler\<close> stores last in
  \<^verbatim>\<open>state.visibilityChangeHandler\<close>: it removes both listeners and then calls
  \<^verbatim>\<open>originalCleanup\<close>, which is the value the field held before, that is
  \<^verbatim>\<open>handleVisibilityChange\<close> itself.
\<close>

definition visibility_cleanup :: "callbacks \<Rightarrow> world \<Rightarrow> world" where
  "visibility_cleanup cbs w =
     handleVisibilityChange cbs
       (w\<lparr>visibilitychange_listeners := remove1 cbs (visibilitychange_listeners w),
          focus_listeners := remove1 cbs (focus_listeners w)\<rparr>)"

definition cleanup :: "world \<Rightarrow> world" where
  "cleanup w =
     (case state w of
        None \<Rightarrow> w
      | Some s \<Rightarrow>
          (let w1 = (case pollingCleanup s of None \<Rightarrow> w | Some pid \<Rightarrow> polling_cleanup pid w);
               w2 = (case visibilityChangeHandler s of None \<Rightarrow> w1
                     | Some cbs \<Rightarrow> visibility_cleanup cbs w1)
           in w2\<lparr>state := None\<rparr>))"

definition setupVisibilityChangeHandler :: "callbacks \<Rightarrow> world \<Rightarrow> world" where
  "setupVisibilityChangeHandler cbs w =
     (case document_hidden w of
        None \<Rightarrow> w
      | Some h \<Rightarrow>
          w\<lparr>visibilitychange_listeners := visibilitychange_listeners w @ [cbs],
            focus_listeners := focus_listeners w @ [cbs],
            state := map_option (\<lambda>s. s\<lparr>visibilityChangeHandler := Some cbs\<rparr>) (state w)\<rparr>)"

definition setupAppShowHandler :: "callbacks \<Rightarrow> world \<Rightarrow> world" where
  "setupAppShowHandler cbs w =
     w\<lparr>state := map_option (\<lambda>s. s\<lparr>state_callbacks := Some cbs\<rparr>) (state w)\<rparr>"

definition startPayment :: "string \<Rightarrow> string \<Rightarrow> int \<Rightarrow> callbacks \<Rightarrow> world \<Rightarrow> world" where
  "startPayment oid att amt cbs w =
     (let w1 = cleanup w;
          w2 = w1\<lparr>state := Some \<lparr>state_orderId = oid, state_attach = att, state_amount = amt,
                   state_isPolling = True, pollingCleanup = None,
                   visibilityChangeHandler = None, state_callbacks = None\<rparr>\<rparr>;
          w3 = (if env w2 = WEB then setupVisibilityChangeHandler cbs w2 else w2)
      in if env w3 = WEAPP then setupAppShowHandler cbs w3 else w3)"

text \<open>\<^verbatim>\<open>this.state.callbacks || {}\<close>.\<close>

definition callbacks_or_empty :: "PaymentState \<Rightarrow> callbacks" where
  "callbacks_or_empty s = (case state_callbacks s of None \<Rightarrow> no_callbacks | Some c \<Rightarrow> c)"

text \<open>\<^verbatim>\<open>checkPaymentStatusOnce\<close> up to its \<^verbatim>\<open>await\<close>.\<close>

definition checkPaymentStatusOnce :: "world \<Rightarrow> world" where
  "checkPaymentStatusOnce w =
     (case state w of
        None \<Rightarrow> w
      | Some s \<Rightarrow>
          (let q = next_query w in
           emit (GetPaymentStatus ByOnce (state_orderId s))
             (w\<lparr>inflight := inflight w @ [(q, OnceCont)], next_query := Suc q\<rparr>)))"

definition handlePageShow :: "world \<Rightarrow> world" where
  "handlePageShow w =
     (case state w of
        None \<Rightarrow> w
      | Some s \<Rightarrow>
          if \<not> state_isPolling s then w
          else if env w = WEAPP then checkPaymentStatusOnce w
          else if env w = WEB then startPolling (callbacks_or_empty s) w
          else w)"

text \<open>
  \<^verbatim>\<open>checkPaymentStatusOnce\<close> after its \<^verbatim>\<open>await\<close>. When \<^verbatim>\<open>this.state\<close> has become
  \<^verbatim>\<open>null\<close> in the meantime, every branch reads a member of \<^verbatim>\<open>null\<close>: the TypeError is
  caught, the catch block reads \<^verbatim>\<open>this.state.callbacks\<close> and throws again, and the
  promise rejects.
\<close>

definition checkPaymentStatusOnce_resume :: "query_outcome \<Rightarrow> world \<Rightarrow> world" where
  "checkPaymentStatusOnce_resume out w =
     (case state w of
        None \<Rightarrow> emit OnceRejected w
      | Some s \<Rightarrow>
          (case out of
             Resolved result \<Rightarrow>
               if isPaymentComplete result then
                 (if attach result \<noteq> Some (state_attach s) then
                    emit (Notify ToastOrderCheckFailed)
                      (cleanup (call_optional
                         (case state_callbacks s of None \<Rightarrow> None | Some c \<Rightarrow> onFailed c)
                         (Response result) w))
                  else
                    cleanup (call_optional
                      (case state_callbacks s of None \<Rightarrow> None | Some c \<Rightarrow> onSuccess c)
                      (Response result) w))
               else startPolling (callbacks_or_empty s) w
           | Rejected \<Rightarrow> startPolling (callbacks_or_empty s) w))"

text \<open>
  The three wrappers \<^verbatim>\<open>startPolling\<close> passes to the engine, closed over \<open>cbs\<close>:
  \<^verbatim>\<open>this.cleanup()\<close>, then the user's callback, then the notification.
\<close>

definition failure_title :: "payload \<Rightarrow> string" where
  "failure_title x =
     (case x of StatusMessage s m \<Rightarrow> (if m \<noteq> [] then m else payment_failed_text)
      | _ \<Rightarrow> payment_failed_text)"

definition polling_onSuccess :: "callbacks \<Rightarrow> PaymentStatusResponse \<Rightarrow> world \<Rightarrow> world" where
  "polling_onSuccess cbs result w = call_optional (onSuccess cbs) (Response result) (cleanup w)"

definition polling_onFailed :: "callbacks \<Rightarrow> payload \<Rightarrow> world \<Rightarrow> world" where
  "polling_onFailed cbs x w =
     emit (Notify (ToastFailure (failure_title x))) (call_optional (onFailed cbs) x (cleanup w))"

definition polling_onTimeout :: "callbacks \<Rightarrow> world \<Rightarrow> world" where
  "polling_onTimeout cbs w =
     emit (Notify ModalQueryTimeout) (call_optional (onTimeout cbs) NoPayload (cleanup w))"

text \<open>
  \<^verbatim>\<open>poll\<close> after its \<^verbatim>\<open>await\<close>, in the world: the branch of \<open>poll_decide\<close>, carried out.
\<close>

definition poll_resume :: "nat \<Rightarrow> query_outcome \<Rightarrow> world \<Rightarrow> world" where
  "poll_resume pid out w =
     (if pid < length (pollers w) then
        (let p = pollers w ! pid;
             stopped = w\<lparr>pollers := (pollers w)[pid := p\<lparr>isPolling := False\<rparr>]\<rparr>
         in case poll_decide p out of
              CallOnFailed x \<Rightarrow>
                polling_onFailed (captured p) x (emit (PollerCalls pid (OnFailed x)) stopped)
            | CallOnSuccess result \<Rightarrow>
                polling_onSuccess (captured p) result
                  (emit (PollerCalls pid (OnSuccess (Response result))) stopped)
            | CallOnTimeout \<Rightarrow>
                polling_onTimeout (captured p) (emit (PollerCalls pid OnTimeout) stopped)
            | SetTimeout \<Rightarrow> setTimeout_poll pid w
            | Return \<Rightarrow> w)
      else w)"

text \<open>
  \<^verbatim>\<open>manualCheckPaymentStatus\<close> up to its \<^verbatim>\<open>await\<close>: \<open>Some None\<close> is the immediate
  \<^verbatim>\<open>return null\<close>, \<open>None\<close> a promise still pending on the query just sent.
\<close>

definition manualCheckPaymentStatus ::
  "world \<Rightarrow> PaymentStatusResponse option option \<times> world" where
  "manualCheckPaymentStatus w =
     (case state w of
        None \<Rightarrow> (Some None, w)
      | Some s \<Rightarrow>
          (let q = next_query w in
           (None, emit (GetPaymentStatus ByManual (state_orderId s))
                    (w\<lparr>inflight := inflight w @ [(q, ManualCont)], next_query := Suc q\<rparr>))))"

text \<open>
  \<^verbatim>\<open>manualCheckPaymentStatus\<close> after its \<^verbatim>\<open>await\<close>: the value returned and the world.
  With \<^verbatim>\<open>this.state\<close> gone and a complete result, reading \<^verbatim>\<open>this.state.attach\<close>
  throws into the catch block.
\<close>

definition manualCheck_resume ::
  "query_outcome \<Rightarrow> world \<Rightarrow> PaymentStatusResponse option \<times> world" where
  "manualCheck_resume out w =
     (case out of
        Resolved result \<Rightarrow>
          if isPaymentComplete result then
            (case state w of
               None \<Rightarrow> (None, emit (Notify ToastQueryFailed) w)
             | Some s \<Rightarrow>
                 if attach result \<noteq> Some (state_attach s) then
                   (None, emit (Notify ToastOrderCheckFailed) (cleanup w))
                 else (Some result, cleanup w))
          else (Some result, emit (Notify ToastNotPaidYet) w)
      | Rejected \<Rightarrow> (None, emit (Notify ToastQueryFailed) w))"

section \<open>Events\<close>

datatype event =
    StartPayment string string int callbacks
  | Cleanup
  | HandlePageShow
  | ManualCheck
  | VisibilityChange bool
  | Focus
  | TimerFires nat
  | QueryCompletes nat query_outcome

definition resume :: "continuation \<Rightarrow> query_outcome \<Rightarrow> world \<Rightarrow> world" where
  "resume k out w =
     (case k of
        PollCont pid \<Rightarrow> poll_resume pid out w
      | OnceCont \<Rightarrow> checkPaymentStatusOnce_resume out w
      | ManualCont \<Rightarrow>
          (case manualCheck_resume out w of (v, w') \<Rightarrow> emit (ManualReturns v) w'))"

text \<open>
  One event. A timer that is not pending cannot fire and a query that is not in flight
  cannot complete: such events change nothing. A DOM event runs the listeners
  registered when it is dispatched, in order.
\<close>

definition step :: "event \<Rightarrow> world \<Rightarrow> world" where
  "step ev w =
     (case ev of
        StartPayment oid att amt cbs \<Rightarrow> startPayment oid att amt cbs w
      | Cleanup \<Rightarrow> cleanup w
      | HandlePageShow \<Rightarrow> handlePageShow w
      | ManualCheck \<Rightarrow>
          (case manualCheckPaymentStatus w of
             (Some v, w') \<Rightarrow> emit (ManualReturns v) w'
           | (None, w') \<Rightarrow> w')
      | VisibilityChange h \<Rightarrow>
          (case document_hidden w of
             None \<Rightarrow> w
           | Some h0 \<Rightarrow>
               fold handleVisibilityChange (visibilitychange_listeners w)
                 (w\<lparr>document_hidden := Some h\<rparr>))
      | Focus \<Rightarrow> fold handleFocus (focus_listeners w) w
      | TimerFires t \<Rightarrow>
          (case find (\<lambda>e. fst e = t) (timers w) of
             None \<Rightarrow> w
           | Some (t', pid, d) \<Rightarrow> poll pid (w\<lparr>timers := filter (\<lambda>e. fst e \<noteq> t) (timers w)\<rparr>))
      | QueryCompletes q out \<Rightarrow>
          (case find (\<lambda>e. fst e = q) (inflight w) of
             None \<Rightarrow> w
           | Some (q', k) \<Rightarrow>
               resume k out (w\<lparr>inflight := filter (\<lambda>e. fst e \<noteq> q) (inflight w)\<rparr>)))"

definition run :: "event list \<Rightarrow> world \<Rightarrow> world" where
  "run evs w = fold step evs w"

section \<open>Observations, invariants and scenarios\<close>

text \<open>
  A response is blank when one of the five checked fields is missing, zero or empty.
\<close>

definition blank :: "PaymentStatusResponse \<Rightarrow> bool" where
  "blank r =
     (amount r = None \<or> amount r = Some 0 \<or>
      description r = None \<or> description r = Some [] \<or>
      createTime r = None \<or> createTime r = Some [] \<or>
      payTime r = None \<or> payTime r = Some [] \<or>
      attach r = None \<or> attach r = Some [])"

text \<open>The part of the trace that polling loop \<open>pid\<close> produced itself.\<close>

definition of_poller :: "nat \<Rightarrow> effect \<Rightarrow> bool" where
  "of_poller pid e =
     (case e of
        GetPaymentStatus from oid \<Rightarrow> (case from of ByPoller p \<Rightarrow> p = pid | _ \<Rightarrow> False)
      | PollerCalls p s \<Rightarrow> p = pid
      | _ \<Rightarrow> False)"

definition engine_trace :: "nat \<Rightarrow> world \<Rightarrow> effect list" where
  "engine_trace pid w = filter (of_poller pid) (trace w)"

text \<open>The calls of the caller's function \<open>f\<close> in a trace.\<close>

definition calls_of :: "nat \<Rightarrow> effect list \<Rightarrow> effect list" where
  "calls_of f tr = filter (\<lambda>e. case e of Called g x \<Rightarrow> g = f | _ \<Rightarrow> False) tr"

text \<open>The status queries in a trace, whoever sent them.\<close>

definition queries_in :: "effect list \<Rightarrow> effect list" where
  "queries_in tr = filter (\<lambda>e. case e of GetPaymentStatus from oid \<Rightarrow> True | _ \<Rightarrow> False) tr"

text \<open>
  A loop is finished when it has no timer pending and no query in flight: nothing is
  left that could run its code. It is settled with \<open>T\<close> when it is finished and \<open>T\<close> is
  all it has sent and called.
\<close>

definition finished :: "nat \<Rightarrow> world \<Rightarrow> bool" where
  "finished pid w =
     (pid < length (pollers w) \<and> pid \<notin> (\<lambda>e. fst (snd e)) ` set (timers w) \<and>
      PollCont pid \<notin> snd ` set (inflight w))"

definition settled :: "nat \<Rightarrow> effect list \<Rightarrow> world \<Rightarrow> bool" where
  "settled pid T w = (finished pid w \<and> engine_trace pid w = T)"

text \<open>
  One full attempt of loop \<open>pid\<close>, with nothing else happening in between: its pending
  timer fires, and the status query sent by \<^verbatim>\<open>poll\<close> completes with \<open>out\<close>.
\<close>

definition attempt :: "nat \<Rightarrow> query_outcome \<Rightarrow> world \<Rightarrow> world" where
  "attempt pid out w =
     (if pid < length (pollers w) then
        (case timeoutId (pollers w ! pid) of
           None \<Rightarrow> w
         | Some t \<Rightarrow> step (QueryCompletes (next_query w) out) (step (TimerFires t) w))
      else w)"

definition attempts_with :: "nat \<Rightarrow> PaymentStatusResponse list \<Rightarrow> world \<Rightarrow> world" where
  "attempts_with pid rs w = fold (\<lambda>r. attempt pid (Resolved r)) rs w"

text \<open>
  Timer and query ids below the counters, and no timer or query of a loop that does not
  exist yet: what every world built by the code satisfies (\<open>reachable_well_formed\<close>).
\<close>

fun known_continuation :: "nat \<Rightarrow> continuation \<Rightarrow> bool" where
  "known_continuation n (PollCont p) = (p < n)"
| "known_continuation n OnceCont = True"
| "known_continuation n ManualCont = True"

definition well_formed :: "world \<Rightarrow> bool" where
  "well_formed w =
     ((\<forall>e \<in> set (timers w). fst e < next_timer w \<and> fst (snd e) < length (pollers w)) \<and>
      (\<forall>e \<in> set (inflight w). fst e < next_query w \<and>
         known_continuation (length (pollers w)) (snd e)))"

text \<open>
  Loop \<open>pid\<close> between two attempts, \<open>k\<close> attempts made: still polling, its one timer
  pending, no query of its own in flight.
\<close>

definition armed :: "nat \<Rightarrow> string \<Rightarrow> int \<Rightarrow> int \<Rightarrow> nat \<Rightarrow> world \<Rightarrow> bool" where
  "armed pid oid m iv k w =
     (pid < length (pollers w) \<and>
      poll_orderId (pollers w ! pid) = oid \<and> maxAttempts (pollers w ! pid) = m \<and>
      interval (pollers w ! pid) = iv \<and> attempts (pollers w ! pid) = int k \<and>
      isPolling (pollers w ! pid) \<and>
      (case timeoutId (pollers w ! pid) of
         None \<Rightarrow> False
       | Some t \<Rightarrow>
           find (\<lambda>e. fst e = t) (timers w) = Some (t, pid, iv) \<and>
           (\<forall>e \<in> set (timers w). fst (snd e) = pid \<longrightarrow> fst e = t)) \<and>
      PollCont pid \<notin> snd ` set (inflight w) \<and>
      (\<forall>e \<in> set (timers w). fst e < next_timer w) \<and>
      (\<forall>e \<in> set (inflight w). fst e < next_query w))"

text \<open>
  At most one loop is polling; and the invariant that gives it where there is no
  \<^verbatim>\<open>document\<close>: no visibility handler is saved, and a loop that is polling is the one
  whose cleanup function the state holds.
\<close>

definition one_active :: "world \<Rightarrow> bool" where
  "one_active w =
     (\<forall>i < length (pollers w). \<forall>j < length (pollers w).
        isPolling (pollers w ! i) \<and> isPolling (pollers w ! j) \<longrightarrow> i = j)"

definition referenced :: "world \<Rightarrow> nat option" where
  "referenced w = (case state w of None \<Rightarrow> None | Some s \<Rightarrow> pollingCleanup s)"

definition tidy :: "world \<Rightarrow> bool" where
  "tidy w =
     (document_hidden w = None \<and>
      (\<forall>s. state w = Some s \<longrightarrow> visibilityChangeHandler s = None) \<and>
      (\<forall>i < length (pollers w). isPolling (pollers w ! i) \<longrightarrow> referenced w = Some i))"

text \<open>
  Sample data, after the example scenarios of the specification: a paid response echoing
  attach token \<open>a\<close>, a response without \<^verbatim>\<open>payTime\<close>, a response with every field present
  and amount 0, two callback objects, and a loop during its first attempt of three.
\<close>

definition paid :: "string \<Rightarrow> PaymentStatusResponse" where
  "paid a = \<lparr>orderId = ''ORD1'', amount = Some 1000, description = Some ''x'',
     createTime = Some ''t0'', payTime = Some ''t1'', attach = Some a\<rparr>"

definition pending :: PaymentStatusResponse where
  "pending = \<lparr>orderId = ''ORD1'', amount = Some 1000, description = Some ''x'',
     createTime = Some ''t0'', payTime = None, attach = Some ''TOK1''\<rparr>"

definition zero_amount :: PaymentStatusResponse where
  "zero_amount = \<lparr>orderId = ''ORD1'', amount = Some 0, description = Some ''x'',
     createTime = Some ''t0'', payTime = Some ''t1'', attach = Some ''TOK1''\<rparr>"

definition cb1 :: callbacks where
  "cb1 = \<lparr>onSuccess = Some 1, onFailed = Some 2, onTimeout = Some 3\<rparr>"

definition cb2 :: callbacks where
  "cb2 = \<lparr>onSuccess = Some 4, onFailed = Some 5, onTimeout = Some 6\<rparr>"

definition first_attempt :: poller where
  "first_attempt = \<lparr>poll_orderId = ''ORD1'', expectedAttach = ''TOK1'', captured = cb1,
     maxAttempts = 3, interval = 1000, attempts = 1, isPolling = True, timeoutId = Some 0\<rparr>"

text \<open>
  Mini-program session: the page is shown, the one-shot check finds the payment pending
  and starts the loop, the loop's timer fires and its first query is sent, and then the
  caller invokes \<^verbatim>\<open>cleanup()\<close> while that query is outstanding.
\<close>

definition cancelled_in_flight :: world where
  "cancelled_in_flight =
     run [StartPayment ''ORD1'' ''TOK1'' 1000 cb1, HandlePageShow,
          QueryCompletes 0 (Resolved pending), TimerFires 0, Cleanup] (init WEAPP None)"

text \<open>
  Mini-program session: as before up to the loop's first query; the page is shown again
  and the second one-shot check finds the payment made while the loop's query is still
  outstanding; then the loop's query completes too.
\<close>

definition overlapping_checks :: "event list" where
  "overlapping_checks =
     [StartPayment ''ORD1'' ''TOK1'' 1000 cb1, HandlePageShow,
      QueryCompletes 0 (Resolved pending), TimerFires 0, HandlePageShow,
      QueryCompletes 2 (Resolved (paid ''TOK1'')),
      QueryCompletes 1 (Resolved (paid ''TOK1''))]"

text \<open>
  Browser session with the page visible: the window gets focus, the loop's first query
  finds the payment made, and the loop started meanwhile runs its first attempt.
\<close>

definition browser_success :: "event list" where
  "browser_success =
     [StartPayment ''ORD1'' ''TOK1'' 1000 cb1, Focus, TimerFires 0,
      QueryCompletes 0 (Resolved (paid ''TOK1'')), TimerFires 1,
      QueryCompletes 1 (Resolved (paid ''TOK1''))]"

text \<open>Browser, page visible: a second payment is started, then the window gets focus.\<close>

definition second_payment :: world where
  "second_payment =
     run [StartPayment ''ORD1'' ''TOK1'' 1000 cb1, StartPayment ''ORD2'' ''TOK2'' 1000 cb2,
          Focus] (init WEB (Some False))"

text \<open>Browser, page visible: a payment has been started and nothing else has happened.\<close>

definition browser_session :: world where
  "browser_session = run [StartPayment ''ORD1'' ''TOK1'' 1000 cb1] (init WEB (Some False))"

text \<open>
  Loops started directly on the engine in an empty world: one of a single attempt and
  one of three attempts 1000 ms apart; each also after its first timer has fired and its
  first query is outstanding; and the single-attempt loop after that query was rejected.
\<close>

definition one_attempt :: world where
  "one_attempt =
     snd (startPaymentPolling ''ORD1'' ''TOK1''
       \<lparr>opt_callbacks = cb1, opt_maxAttempts = Some 1, opt_interval = Some 1000\<rparr>
       (init WEAPP None))"

definition three_attempts :: world where
  "three_attempts =
     snd (startPaymentPolling ''ORD1'' ''TOK1''
       \<lparr>opt_callbacks = cb1, opt_maxAttempts = Some 3, opt_interval = Some 1000\<rparr>
       (init WEAPP None))"

definition one_attempt_sent :: world where
  "one_attempt_sent = run [TimerFires 0] one_attempt"

definition first_of_three_sent :: world where
  "first_of_three_sent = run [TimerFires 0] three_attempts"

definition exhausted_on_error :: world where
  "exhausted_on_error = run [TimerFires 0, QueryCompletes 0 Rejected] one_attempt"

text \<open>
  Browser, page visible: the loop has finished its first attempt (payment pending) and
  waits for its second; and the manager's state at that point.
\<close>

definition polling_browser :: world where
  "polling_browser =
     run [StartPayment ''ORD1'' ''TOK1'' 1000 cb1, Focus, TimerFires 0,
          QueryCompletes 0 (Resolved pending)] (init WEB (Some False))"

definition browser_state :: PaymentState where
  "browser_state = \<lparr>state_orderId = ''ORD1'', state_attach = ''TOK1'', state_amount = 1000,
     state_isPolling = True, pollingCleanup = Some 0, visibilityChangeHandler = Some cb1,
     state_callbacks = None\<rparr>"

text \<open>
  Mini-program: a payment has been started; the manager's state then; and the same
  after the user has asked for a manual check, whose query is outstanding.
\<close>

definition miniapp_session :: world where
  "miniapp_session = run [StartPayment ''ORD1'' ''TOK1'' 1000 cb1] (init WEAPP None)"

definition miniapp_state :: PaymentState where
  "miniapp_state = \<lparr>state_orderId = ''ORD1'', state_attach = ''TOK1'', state_amount = 1000,
     state_isPolling = True, pollingCleanup = None, visibilityChangeHandler = None,
     state_callbacks = Some cb1\<rparr>"

definition manual_pending :: world where
  "manual_pending =
     run [StartPayment ''ORD1'' ''TOK1'' 1000 cb1, ManualCheck] (init WEAPP None)"

text \<open>
  Browser, page visible: a payment has been started and the user has asked for a manual
  check, whose query is outstanding.
\<close>

definition manual_pending_browser :: world where
  "manual_pending_browser =
     run [StartPayment ''ORD1'' ''TOK1'' 1000 cb1, ManualCheck] (init WEB (Some False))"

text \<open>
  \<open>n\<close> attempts in a row that find the payment pending, when timer \<open>k\<close> starts the attempt
  that sends query \<open>k\<close>; and the browser session, page visible, in which the window has
  regained focus and the 30 attempts of the loop started then have all found the payment
  pending.
\<close>

definition incomplete_rounds :: "nat \<Rightarrow> event list" where
  "incomplete_rounds n =
     concat (map (\<lambda>k. [TimerFires k, QueryCompletes k (Resolved pending)]) [0..<n])"

definition timed_out_browser :: world where
  "timed_out_browser =
     run (incomplete_rounds 30)
       (run [StartPayment ''ORD1'' ''TOK1'' 1000 cb1, Focus] (init WEB (Some False)))"

named_theorems keeps \<open>operations under which a settled loop stays settled\<close>

named_theorems wf_keeps \<open>operations that keep a world well-formed\<close>

named_theorems tidy_keeps \<open>operations that keep a world without document tidy\<close>

section \<open>Basic facts\<close>

lemma isPaymentComplete_iff: "isPaymentComplete r \<longleftrightarrow> \<not> blank r"
  by (auto simp: isPaymentComplete_def blank_def truthy_number_def truthy_string_def
      split: option.splits)

lemma find_SomeD: "find P xs = Some x \<Longrightarrow> x \<in> set xs \<and> P x"
  by (induction xs) (auto split: if_splits)

lemma find_fresh:
  "\<forall>e \<in> set xs. fst e < (n::nat) \<Longrightarrow> find (\<lambda>e. fst e = n) (xs @ [(n, y)]) = Some (n, y)"
  by (induction xs) auto

lemma filter_all_fresh:
  "\<forall>e \<in> set xs. fst e < (n::nat) \<Longrightarrow> filter (\<lambda>e. fst e \<noteq> n) xs = xs"
  by (induction xs) auto

lemma step_QueryCompletes:
  "step (QueryCompletes q out) w =
     (case find (\<lambda>e. fst e = q) (inflight w) of
        None \<Rightarrow> w
      | Some (q', k) \<Rightarrow> resume k out (w\<lparr>inflight := filter (\<lambda>e. fst e \<noteq> q) (inflight w)\<rparr>))"
  by (simp add: step_def)

lemma stop_poller:
  "timeoutId p = None \<Longrightarrow> p\<lparr>isPolling := False, timeoutId := None\<rparr> = p\<lparr>isPolling := False\<rparr>"
  by (cases p) simp

subsection \<open>The manager's cleanup adds nothing to the trace\<close>

lemma trace_polling_cleanup [simp]: "trace (polling_cleanup pid w) = trace w"
  by (simp add: polling_cleanup_def Let_def split: option.splits)

lemma trace_startPaymentPolling [simp]:
  "trace (snd (startPaymentPolling oid ea opts w)) = trace w"
  by (simp add: startPaymentPolling_def setTimeout_poll_def Let_def)

lemma trace_startPolling [simp]: "trace (startPolling cbs w) = trace w"
  by (simp add: startPolling_def Let_def split_beta split: option.splits)

lemma trace_handleVisibilityChange [simp]: "trace (handleVisibilityChange cbs w) = trace w"
  by (simp add: handleVisibilityChange_def)

lemma trace_visibility_cleanup [simp]: "trace (visibility_cleanup cbs w) = trace w"
  by (simp add: visibility_cleanup_def)

lemma trace_cleanup [simp]: "trace (cleanup w) = trace w"
  by (simp add: cleanup_def Let_def split: option.splits)

lemma state_cleanup [simp]: "state (cleanup w) = None"
  by (simp add: cleanup_def Let_def split: option.splits)

text \<open>
  Two calls of \<^verbatim>\<open>cleanup()\<close> in a row leave the world that one call leaves, and without
  a session the call changes nothing.
\<close>

lemma cleanup_idempotent: "cleanup (cleanup w) = cleanup w"
  by (simp add: cleanup_def [of "cleanup w"])

lemma cleanup_no_session: "state w = None \<Longrightarrow> cleanup w = w"
  by (simp add: cleanup_def)

section \<open>A finished loop stays finished\<close>

text \<open>
  No operation of the manager or of another loop gives a finished loop a timer or a
  query, or adds to what it has sent and called: new loops get new indices, and timers
  and queries of a loop come only from that loop's own code.
\<close>

lemma settled_emit [keeps]:
  "\<not> of_poller pid e \<Longrightarrow> settled pid T w \<Longrightarrow> settled pid T (emit e w)"
  by (simp add: settled_def finished_def engine_trace_def emit_def)

lemma settled_call_optional [keeps]: "settled pid T w \<Longrightarrow> settled pid T (call_optional f x w)"
  by (cases f) (simp_all add: call_optional_def settled_emit of_poller_def)

lemma settled_polling_cleanup [keeps]:
  "settled pid T w \<Longrightarrow> settled pid T (polling_cleanup p' w)"
  by (auto simp: settled_def finished_def engine_trace_def polling_cleanup_def Let_def
      split: option.splits)

lemma settled_startPaymentPolling [keeps]:
  "settled pid T w \<Longrightarrow> settled pid T (snd (startPaymentPolling oid ea opts w))"
  by (auto simp: settled_def finished_def engine_trace_def startPaymentPolling_def
      setTimeout_poll_def Let_def)

lemma settled_update [simp]:
  "settled pid T (w\<lparr>state := x\<rparr>) = settled pid T w"
  "settled pid T (w\<lparr>visibilitychange_listeners := y\<rparr>) = settled pid T w"
  "settled pid T (w\<lparr>focus_listeners := y\<rparr>) = settled pid T w"
  "settled pid T (w\<lparr>document_hidden := z\<rparr>) = settled pid T w"
  by (simp_all add: settled_def finished_def engine_trace_def)

lemma settled_startPolling [keeps]: "settled pid T w \<Longrightarrow> settled pid T (startPolling cbs w)"
  by (auto simp: startPolling_def Let_def split_beta split: option.splits intro!: keeps)

lemma settled_handleVisibilityChange [keeps]:
  "settled pid T w \<Longrightarrow> settled pid T (handleVisibilityChange cbs w)"
  by (auto simp: handleVisibilityChange_def intro!: keeps)

lemma settled_handleFocus [keeps]: "settled pid T w \<Longrightarrow> settled pid T (handleFocus cbs w)"
  by (auto simp: handleFocus_def intro!: keeps)

lemma settled_visibility_cleanup [keeps]:
  "settled pid T w \<Longrightarrow> settled pid T (visibility_cleanup cbs w)"
  by (auto simp: visibility_cleanup_def intro!: keeps)

lemma settled_cleanup [keeps]: "settled pid T w \<Longrightarrow> settled pid T (cleanup w)"
  by (auto simp: cleanup_def Let_def split: option.splits intro!: keeps)

lemma settled_startPayment [keeps]:
  "settled pid T w \<Longrightarrow> settled pid T (startPayment oid att amt cbs w)"
  by (auto simp: startPayment_def Let_def setupVisibilityChangeHandler_def
      setupAppShowHandler_def split: option.splits intro!: keeps)

lemma settled_checkPaymentStatusOnce [keeps]:
  "settled pid T w \<Longrightarrow> settled pid T (checkPaymentStatusOnce w)"
  by (auto simp: checkPaymentStatusOnce_def Let_def settled_def finished_def engine_trace_def
      emit_def of_poller_def split: option.splits)

lemma settled_handlePageShow [keeps]: "settled pid T w \<Longrightarrow> settled pid T (handlePageShow w)"
  by (auto simp: handlePageShow_def split: option.splits intro!: keeps)

lemma settled_checkPaymentStatusOnce_resume [keeps]:
  "settled pid T w \<Longrightarrow> settled pid T (checkPaymentStatusOnce_resume out w)"
  by (auto simp: checkPaymentStatusOnce_resume_def of_poller_def
      split: option.splits query_outcome.splits intro!: keeps)

lemma settled_polling_onSuccess [keeps]:
  "settled pid T w \<Longrightarrow> settled pid T (polling_onSuccess cbs r w)"
  by (auto simp: polling_onSuccess_def intro!: keeps)

lemma settled_polling_onFailed [keeps]:
  "settled pid T w \<Longrightarrow> settled pid T (polling_onFailed cbs x w)"
  by (auto simp: polling_onFailed_def of_poller_def intro!: keeps)

lemma settled_polling_onTimeout [keeps]:
  "settled pid T w \<Longrightarrow> settled pid T (polling_onTimeout cbs w)"
  by (auto simp: polling_onTimeout_def of_poller_def intro!: keeps)

lemma settled_poll: "p' \<noteq> pid \<Longrightarrow> settled pid T w \<Longrightarrow> settled pid T (poll p' w)"
  by (auto simp: poll_def Let_def settled_def finished_def engine_trace_def emit_def
      of_poller_def)

lemma settled_set_poller:
  "settled pid T w \<Longrightarrow> settled pid T (w\<lparr>pollers := (pollers w)[p' := x]\<rparr>)"
  by (simp add: settled_def finished_def engine_trace_def)

lemma settled_setTimeout_poll:
  "p' \<noteq> pid \<Longrightarrow> settled pid T w \<Longrightarrow> settled pid T (setTimeout_poll p' w)"
  by (auto simp: setTimeout_poll_def Let_def settled_def finished_def engine_trace_def)

lemma settled_poll_resume:
  "p' \<noteq> pid \<Longrightarrow> settled pid T w \<Longrightarrow> settled pid T (poll_resume p' out w)"
  by (auto simp: poll_resume_def Let_def of_poller_def settled_setTimeout_poll
      split: poll_action.splits intro!: keeps settled_set_poller)

lemma settled_manualCheckPaymentStatus:
  "settled pid T w \<Longrightarrow> settled pid T (snd (manualCheckPaymentStatus w))"
  by (auto simp: manualCheckPaymentStatus_def Let_def settled_def finished_def engine_trace_def
      emit_def of_poller_def split: option.splits)

lemma settled_manualCheck_resume:
  "settled pid T w \<Longrightarrow> settled pid T (snd (manualCheck_resume out w))"
  by (auto simp: manualCheck_resume_def of_poller_def
      split: option.splits query_outcome.splits intro!: keeps)

lemma settled_resume:
  "k \<noteq> PollCont pid \<Longrightarrow> settled pid T w \<Longrightarrow> settled pid T (resume k out w)"
  by (cases k)
     (auto simp: resume_def split_beta of_poller_def
       intro!: keeps settled_poll_resume settled_manualCheck_resume)

lemma settled_fold_handleVisibilityChange:
  "settled pid T w \<Longrightarrow> settled pid T (fold handleVisibilityChange cs w)"
  by (induction cs arbitrary: w) (auto intro: keeps)

lemma settled_fold_handleFocus:
  "settled pid T w \<Longrightarrow> settled pid T (fold handleFocus cs w)"
  by (induction cs arbitrary: w) (auto intro: keeps)

lemma settled_filter_timers:
  "settled pid T w \<Longrightarrow> settled pid T (w\<lparr>timers := filter P (timers w)\<rparr>)"
  by (auto simp: settled_def finished_def engine_trace_def)

lemma settled_filter_inflight:
  "settled pid T w \<Longrightarrow> settled pid T (w\<lparr>inflight := filter P (inflight w)\<rparr>)"
  by (auto simp: settled_def finished_def engine_trace_def)

lemma settled_step:
  assumes "settled pid T w"
  shows "settled pid T (step ev w)"
proof (cases ev)
  case (StartPayment oid att amt cbs)
  with assms show ?thesis by (simp add: step_def settled_startPayment)
next
  case Cleanup
  with assms show ?thesis by (simp add: step_def settled_cleanup)
next
  case HandlePageShow
  with assms show ?thesis by (simp add: step_def settled_handlePageShow)
next
  case ManualCheck
  from assms have "settled pid T (snd (manualCheckPaymentStatus w))"
    by (rule settled_manualCheckPaymentStatus)
  with ManualCheck show ?thesis
    by (auto simp: step_def of_poller_def split: prod.splits option.splits intro!: settled_emit)
next
  case (VisibilityChange h)
  with assms show ?thesis
    by (auto simp: step_def split: option.splits intro!: settled_fold_handleVisibilityChange)
next
  case Focus
  with assms show ?thesis by (simp add: step_def settled_fold_handleFocus)
next
  case (TimerFires t)
  show ?thesis
  proof (cases "find (\<lambda>e. fst e = t) (timers w)")
    case None
    with TimerFires assms show ?thesis by (simp add: step_def)
  next
    case (Some e)
    obtain t' p' d where e: "e = (t', p', d)" by (cases e) auto
    from Some e have "(t', p', d) \<in> set (timers w)" by (auto dest: find_SomeD)
    with assms have "p' \<noteq> pid" by (force simp: settled_def finished_def)
    with assms TimerFires Some e show ?thesis
      by (simp add: step_def settled_poll settled_filter_timers)
  qed
next
  case (QueryCompletes q out)
  show ?thesis
  proof (cases "find (\<lambda>e. fst e = q) (inflight w)")
    case None
    with QueryCompletes assms show ?thesis by (simp add: step_def)
  next
    case (Some e)
    obtain q' k where e: "e = (q', k)" by (cases e) auto
    from Some e have "(q', k) \<in> set (inflight w)" by (auto dest: find_SomeD)
    with assms have "k \<noteq> PollCont pid" by (force simp: settled_def finished_def)
    with assms QueryCompletes Some e show ?thesis
      by (simp add: step_def settled_resume settled_filter_inflight)
  qed
qed

lemma settled_run: "settled pid T w \<Longrightarrow> settled pid T (run evs w)"
  unfolding run_def by (induction evs arbitrary: w) (auto intro: settled_step)

section \<open>Every reachable world is well-formed\<close>

lemma wf_emit [wf_keeps]: "well_formed w \<Longrightarrow> well_formed (emit e w)"
  by (simp add: well_formed_def emit_def)

lemma wf_call_optional [wf_keeps]: "well_formed w \<Longrightarrow> well_formed (call_optional f x w)"
  by (cases f) (simp_all add: call_optional_def wf_emit)

lemma wf_update [simp]:
  "well_formed (w\<lparr>state := x\<rparr>) = well_formed w"
  "well_formed (w\<lparr>visibilitychange_listeners := y\<rparr>) = well_formed w"
  "well_formed (w\<lparr>focus_listeners := y\<rparr>) = well_formed w"
  "well_formed (w\<lparr>document_hidden := z\<rparr>) = well_formed w"
  by (simp_all add: well_formed_def)

lemma wf_polling_cleanup [wf_keeps]: "well_formed w \<Longrightarrow> well_formed (polling_cleanup p' w)"
  by (auto simp: well_formed_def polling_cleanup_def Let_def split: option.splits)

lemma wf_setTimeout_poll:
  "pid < length (pollers w) \<Longrightarrow> well_formed w \<Longrightarrow> well_formed (setTimeout_poll pid w)"
  by (fastforce simp: well_formed_def setTimeout_poll_def Let_def less_Suc_eq)

lemma known_continuation_mono:
  "known_continuation n k \<Longrightarrow> n \<le> m \<Longrightarrow> known_continuation m k"
  by (cases k) auto

lemma wf_new_poller: "well_formed w \<Longrightarrow> well_formed (w\<lparr>pollers := pollers w @ [p]\<rparr>)"
  by (fastforce simp: well_formed_def less_Suc_eq intro: known_continuation_mono)

lemma wf_startPaymentPolling [wf_keeps]:
  "well_formed w \<Longrightarrow> well_formed (snd (startPaymentPolling oid ea opts w))"
  unfolding startPaymentPolling_def Let_def snd_conv
  by (rule wf_setTimeout_poll) (simp_all add: wf_new_poller)

lemma wf_startPolling [wf_keeps]: "well_formed w \<Longrightarrow> well_formed (startPolling cbs w)"
  by (auto simp: startPolling_def Let_def split_beta split: option.splits intro!: wf_keeps)

lemma wf_handleVisibilityChange [wf_keeps]:
  "well_formed w \<Longrightarrow> well_formed (handleVisibilityChange cbs w)"
  by (auto simp: handleVisibilityChange_def intro!: wf_keeps)

lemma wf_handleFocus [wf_keeps]: "well_formed w \<Longrightarrow> well_formed (handleFocus cbs w)"
  by (auto simp: handleFocus_def intro!: wf_keeps)

lemma wf_visibility_cleanup [wf_keeps]:
  "well_formed w \<Longrightarrow> well_formed (visibility_cleanup cbs w)"
  by (auto simp: visibility_cleanup_def intro!: wf_keeps)

lemma wf_cleanup [wf_keeps]: "well_formed w \<Longrightarrow> well_formed (cleanup w)"
  by (auto simp: cleanup_def Let_def split: option.splits intro!: wf_keeps)

lemma wf_startPayment [wf_keeps]:
  "well_formed w \<Longrightarrow> well_formed (startPayment oid att amt cbs w)"
  by (auto simp: startPayment_def Let_def setupVisibilityChangeHandler_def
      setupAppShowHandler_def split: option.splits intro!: wf_keeps)

lemma wf_send_query:
  "known_continuation (length (pollers w)) k \<Longrightarrow> well_formed w \<Longrightarrow>
   well_formed (w\<lparr>inflight := inflight w @ [(next_query w, k)], next_query := Suc (next_query w)\<rparr>)"
  by (fastforce simp: well_formed_def less_Suc_eq)

lemma wf_checkPaymentStatusOnce [wf_keeps]:
  "well_formed w \<Longrightarrow> well_formed (checkPaymentStatusOnce w)"
  by (auto simp: checkPaymentStatusOnce_def Let_def split: option.splits
      intro!: wf_keeps wf_send_query)

lemma wf_handlePageShow [wf_keeps]: "well_formed w \<Longrightarrow> well_formed (handlePageShow w)"
  by (auto simp: handlePageShow_def split: option.splits intro!: wf_keeps)

lemma wf_checkPaymentStatusOnce_resume [wf_keeps]:
  "well_formed w \<Longrightarrow> well_formed (checkPaymentStatusOnce_resume out w)"
  by (auto simp: checkPaymentStatusOnce_resume_def
      split: option.splits query_outcome.splits intro!: wf_keeps)

lemma wf_polling_onSuccess [wf_keeps]:
  "well_formed w \<Longrightarrow> well_formed (polling_onSuccess cbs r w)"
  by (auto simp: polling_onSuccess_def intro!: wf_keeps)

lemma wf_polling_onFailed [wf_keeps]:
  "well_formed w \<Longrightarrow> well_formed (polling_onFailed cbs x w)"
  by (auto simp: polling_onFailed_def intro!: wf_keeps)

lemma wf_polling_onTimeout [wf_keeps]:
  "well_formed w \<Longrightarrow> well_formed (polling_onTimeout cbs w)"
  by (auto simp: polling_onTimeout_def intro!: wf_keeps)

lemma wf_set_poller:
  "well_formed w \<Longrightarrow> well_formed (w\<lparr>pollers := (pollers w)[p' := x]\<rparr>)"
  by (simp add: well_formed_def)

lemma wf_poll [wf_keeps]: "well_formed w \<Longrightarrow> well_formed (poll pid w)"
  by (auto simp: poll_def Let_def intro!: wf_emit)
     (fastforce simp: well_formed_def less_Suc_eq)

lemma wf_poll_resume [wf_keeps]: "well_formed w \<Longrightarrow> well_formed (poll_resume pid out w)"
  by (auto simp: poll_resume_def Let_def wf_setTimeout_poll
      split: poll_action.splits intro!: wf_keeps wf_set_poller)

lemma wf_manualCheckPaymentStatus:
  "well_formed w \<Longrightarrow> well_formed (snd (manualCheckPaymentStatus w))"
  by (auto simp: manualCheckPaymentStatus_def Let_def split: option.splits
      intro!: wf_keeps wf_send_query)

lemma wf_manualCheck_resume:
  "well_formed w \<Longrightarrow> well_formed (snd (manualCheck_resume out w))"
  by (auto simp: manualCheck_resume_def
      split: option.splits query_outcome.splits intro!: wf_keeps)

lemma wf_resume: "well_formed w \<Longrightarrow> well_formed (resume k out w)"
  by (cases k)
     (auto simp: resume_def split_beta intro!: wf_keeps wf_manualCheck_resume)

lemma wf_fold_handleVisibilityChange:
  "well_formed w \<Longrightarrow> well_formed (fold handleVisibilityChange cs w)"
  by (induction cs arbitrary: w) (auto intro: wf_keeps)

lemma wf_fold_handleFocus:
  "well_formed w \<Longrightarrow> well_formed (fold handleFocus cs w)"
  by (induction cs arbitrary: w) (auto intro: wf_keeps)

lemma wf_filter_timers: "well_formed w \<Longrightarrow> well_formed (w\<lparr>timers := filter P (timers w)\<rparr>)"
  by (simp add: well_formed_def)

lemma wf_filter_inflight:
  "well_formed w \<Longrightarrow> well_formed (w\<lparr>inflight := filter P (inflight w)\<rparr>)"
  by (simp add: well_formed_def)

lemma wf_step:
  assumes "well_formed w"
  shows "well_formed (step ev w)"
proof (cases ev)
  case ManualCheck
  from assms have "well_formed (snd (manualCheckPaymentStatus w))"
    by (rule wf_manualCheckPaymentStatus)
  with ManualCheck show ?thesis
    by (auto simp: step_def split: prod.splits option.splits intro!: wf_emit)
qed (use assms in \<open>auto simp: step_def split: option.splits
      intro!: wf_keeps wf_resume wf_fold_handleVisibilityChange wf_fold_handleFocus
        wf_filter_timers wf_filter_inflight\<close>)

lemma wf_init: "well_formed (init e d)"
  by (simp add: well_formed_def init_def)

lemma wf_run: "well_formed w \<Longrightarrow> well_formed (run evs w)"
  unfolding run_def by (induction evs arbitrary: w) (auto intro: wf_step)

lemma reachable_well_formed: "well_formed (run evs (init e d))"
  by (simp add: wf_run wf_init)

section \<open>Without a document, at most one loop is polling\<close>

text \<open>
  Where \<^verbatim>\<open>document\<close> is undefined, as in the mini-program, \<^verbatim>\<open>cleanup()\<close> has no
  visibility handler to call. Every loop that is polling is then the one the state
  refers to, so starting the polling again, cleaning up and starting a new payment all
  stop it first.
\<close>

lemma tidy_one_active: "tidy w \<Longrightarrow> one_active w"
  unfolding tidy_def one_active_def by (metis option.inject)

lemma tidy_emit [tidy_keeps]: "tidy w \<Longrightarrow> tidy (emit e w)"
  by (simp add: tidy_def referenced_def emit_def split: option.splits)

lemma tidy_call_optional [tidy_keeps]: "tidy w \<Longrightarrow> tidy (call_optional f x w)"
  by (cases f) (simp_all add: call_optional_def tidy_emit)

lemma polling_cleanup_frame [simp]:
  "length (pollers (polling_cleanup p w)) = length (pollers w)"
  "state (polling_cleanup p w) = state w"
  "document_hidden (polling_cleanup p w) = document_hidden w"
  by (simp_all add: polling_cleanup_def Let_def split: option.splits)

lemma isPolling_polling_cleanup [simp]:
  "i < length (pollers w) \<Longrightarrow>
   isPolling (pollers (polling_cleanup p w) ! i) = (i \<noteq> p \<and> isPolling (pollers w ! i))"
  by (auto simp: polling_cleanup_def Let_def nth_list_update split: option.splits)

lemma startPaymentPolling_frame [simp]:
  "fst (startPaymentPolling oid ea opts w) = length (pollers w)"
  "length (pollers (snd (startPaymentPolling oid ea opts w))) = Suc (length (pollers w))"
  "state (snd (startPaymentPolling oid ea opts w)) = state w"
  "document_hidden (snd (startPaymentPolling oid ea opts w)) = document_hidden w"
  by (simp_all add: startPaymentPolling_def setTimeout_poll_def Let_def)

lemma isPolling_startPaymentPolling [simp]:
  "i < length (pollers w) \<Longrightarrow>
   isPolling (pollers (snd (startPaymentPolling oid ea opts w)) ! i) = isPolling (pollers w ! i)"
  by (simp add: startPaymentPolling_def setTimeout_poll_def Let_def nth_append)

lemma startPolling_cases:
  "startPolling cbs w = w \<or>
   (\<exists>s. state w = Some s \<and>
      startPolling cbs w =
        (snd (startPaymentPolling (state_orderId s) (state_attach s)
           \<lparr>opt_callbacks = cbs, opt_maxAttempts = Some 30, opt_interval = Some 3000\<rparr>
           (case pollingCleanup s of None \<Rightarrow> w | Some pid \<Rightarrow> polling_cleanup pid w)))
        \<lparr>state := Some (s\<lparr>pollingCleanup := Some (length (pollers w))\<rparr>)\<rparr>)"
  by (cases "state w") (auto simp: startPolling_def Let_def split_beta split: option.splits)

lemma tidy_startPolling [tidy_keeps]:
  assumes "tidy w"
  shows "tidy (startPolling cbs w)"
proof -
  from startPolling_cases [of cbs w] show ?thesis
  proof
    assume "startPolling cbs w = w"
    with assms show ?thesis by simp
  next
    assume "\<exists>s. state w = Some s \<and>
      startPolling cbs w =
        (snd (startPaymentPolling (state_orderId s) (state_attach s)
           \<lparr>opt_callbacks = cbs, opt_maxAttempts = Some 30, opt_interval = Some 3000\<rparr>
           (case pollingCleanup s of None \<Rightarrow> w | Some pid \<Rightarrow> polling_cleanup pid w)))
        \<lparr>state := Some (s\<lparr>pollingCleanup := Some (length (pollers w))\<rparr>)\<rparr>"
    then obtain s where s: "state w = Some s"
      and eq: "startPolling cbs w =
        (snd (startPaymentPolling (state_orderId s) (state_attach s)
           \<lparr>opt_callbacks = cbs, opt_maxAttempts = Some 30, opt_interval = Some 3000\<rparr>
           (case pollingCleanup s of None \<Rightarrow> w | Some pid \<Rightarrow> polling_cleanup pid w)))
        \<lparr>state := Some (s\<lparr>pollingCleanup := Some (length (pollers w))\<rparr>)\<rparr>"
      by blast
    show ?thesis
    proof (cases "pollingCleanup s")
      case None
      with assms s show ?thesis
        unfolding eq by (auto simp: tidy_def referenced_def less_Suc_eq)
    next
      case (Some pid)
      with assms s show ?thesis
        unfolding eq by (auto simp: tidy_def referenced_def less_Suc_eq)
    qed
  qed
qed

lemma tidy_handleFocus [tidy_keeps]: "tidy w \<Longrightarrow> tidy (handleFocus cbs w)"
  by (simp add: handleFocus_def tidy_startPolling)

lemma tidy_handleVisibilityChange [tidy_keeps]:
  "tidy w \<Longrightarrow> tidy (handleVisibilityChange cbs w)"
  by (simp add: handleVisibilityChange_def tidy_startPolling)

lemma tidy_cleanup_idle:
  assumes "tidy w"
  shows "tidy (cleanup w) \<and>
         (\<forall>i < length (pollers (cleanup w)). \<not> isPolling (pollers (cleanup w) ! i))"
proof (cases "state w")
  case None
  with assms show ?thesis
    by (simp add: cleanup_def tidy_def referenced_def)
next
  case (Some s)
  with assms have vh: "visibilityChangeHandler s = None"
    by (simp add: tidy_def)
  show ?thesis
  proof (cases "pollingCleanup s")
    case None
    with assms Some vh show ?thesis
      by (simp add: cleanup_def tidy_def referenced_def)
  next
    case (Some pid)
    with assms \<open>state w = Some s\<close> vh show ?thesis
      by (auto simp: cleanup_def tidy_def referenced_def)
  qed
qed

lemma tidy_cleanup [tidy_keeps]: "tidy w \<Longrightarrow> tidy (cleanup w)"
  by (simp add: tidy_cleanup_idle)

lemma tidy_startPayment [tidy_keeps]:
  assumes "tidy w"
  shows "tidy (startPayment oid att amt cbs w)"
proof -
  from tidy_cleanup_idle [OF assms]
  have "document_hidden (cleanup w) = None"
    and "\<forall>i < length (pollers (cleanup w)). \<not> isPolling (pollers (cleanup w) ! i)"
    by (simp_all add: tidy_def)
  then show ?thesis
    by (simp add: startPayment_def Let_def setupVisibilityChangeHandler_def
        setupAppShowHandler_def tidy_def referenced_def)
qed

lemma tidy_checkPaymentStatusOnce [tidy_keeps]: "tidy w \<Longrightarrow> tidy (checkPaymentStatusOnce w)"
  by (auto simp: checkPaymentStatusOnce_def Let_def tidy_def referenced_def emit_def
      split: option.splits)

lemma tidy_handlePageShow [tidy_keeps]: "tidy w \<Longrightarrow> tidy (handlePageShow w)"
  by (auto simp: handlePageShow_def split: option.splits intro!: tidy_keeps)

lemma tidy_checkPaymentStatusOnce_resume [tidy_keeps]:
  "tidy w \<Longrightarrow> tidy (checkPaymentStatusOnce_resume out w)"
  by (auto simp: checkPaymentStatusOnce_resume_def
      split: option.splits query_outcome.splits intro!: tidy_keeps)

lemma tidy_polling_onSuccess [tidy_keeps]: "tidy w \<Longrightarrow> tidy (polling_onSuccess cbs r w)"
  by (auto simp: polling_onSuccess_def intro!: tidy_keeps)

lemma tidy_polling_onFailed [tidy_keeps]: "tidy w \<Longrightarrow> tidy (polling_onFailed cbs x w)"
  by (auto simp: polling_onFailed_def intro!: tidy_keeps)

lemma tidy_polling_onTimeout [tidy_keeps]: "tidy w \<Longrightarrow> tidy (polling_onTimeout cbs w)"
  by (auto simp: polling_onTimeout_def intro!: tidy_keeps)

lemma tidy_set_poller:
  assumes "tidy w" and "isPolling x \<Longrightarrow> isPolling (pollers w ! pid)"
  shows "tidy (w\<lparr>pollers := (pollers w)[pid := x]\<rparr>)"
proof (cases "pid < length (pollers w)")
  case True
  with assms show ?thesis
    by (auto simp: tidy_def referenced_def nth_list_update)
next
  case False
  with assms show ?thesis
    by (simp add: tidy_def referenced_def)
qed

lemma tidy_update [simp]:
  "tidy (w\<lparr>timers := a\<rparr>) = tidy w"
  "tidy (w\<lparr>inflight := b\<rparr>) = tidy w"
  "tidy (w\<lparr>next_timer := c\<rparr>) = tidy w"
  "tidy (w\<lparr>next_query := d\<rparr>) = tidy w"
  "tidy (w\<lparr>trace := e\<rparr>) = tidy w"
  by (simp_all add: tidy_def referenced_def)

lemma tidy_poll [tidy_keeps]: "tidy w \<Longrightarrow> tidy (poll pid w)"
  by (simp add: poll_def Let_def emit_def tidy_set_poller)

lemma tidy_stop:
  "tidy w \<Longrightarrow> tidy (w\<lparr>pollers := (pollers w)[pid := (pollers w ! pid)\<lparr>isPolling := False\<rparr>]\<rparr>)"
  by (rule tidy_set_poller) simp_all

lemma tidy_setTimeout_poll:
  assumes "tidy w"
  shows "tidy (setTimeout_poll pid w)"
proof -
  from assms
  have "tidy (w\<lparr>pollers := (pollers w)[pid := (pollers w ! pid)\<lparr>timeoutId := Some (next_timer w)\<rparr>]\<rparr>)"
    by (rule tidy_set_poller) simp
  then show ?thesis
    by (simp add: setTimeout_poll_def Let_def)
qed

lemma tidy_poll_resume [tidy_keeps]: "tidy w \<Longrightarrow> tidy (poll_resume pid out w)"
  by (auto simp: poll_resume_def Let_def tidy_setTimeout_poll
      split: poll_action.splits intro!: tidy_keeps tidy_stop)

lemma tidy_manualCheckPaymentStatus: "tidy w \<Longrightarrow> tidy (snd (manualCheckPaymentStatus w))"
  by (auto simp: manualCheckPaymentStatus_def Let_def tidy_def referenced_def emit_def
      split: option.splits)

lemma tidy_manualCheck_resume: "tidy w \<Longrightarrow> tidy (snd (manualCheck_resume out w))"
  by (auto simp: manualCheck_resume_def
      split: option.splits query_outcome.splits intro!: tidy_keeps)

lemma tidy_resume: "tidy w \<Longrightarrow> tidy (resume k out w)"
  by (cases k) (auto simp: resume_def split_beta intro!: tidy_keeps tidy_manualCheck_resume)

lemma tidy_fold_handleFocus: "tidy w \<Longrightarrow> tidy (fold handleFocus cs w)"
  by (induction cs arbitrary: w) (auto intro: tidy_keeps)

lemma tidy_filter_timers: "tidy w \<Longrightarrow> tidy (w\<lparr>timers := x\<rparr>)"
  by (simp add: tidy_def referenced_def split: option.splits)

lemma tidy_filter_inflight: "tidy w \<Longrightarrow> tidy (w\<lparr>inflight := x\<rparr>)"
  by (simp add: tidy_def referenced_def split: option.splits)

lemma tidy_step:
  assumes "tidy w"
  shows "tidy (step ev w)"
proof (cases ev)
  case ManualCheck
  from assms have "tidy (snd (manualCheckPaymentStatus w))"
    by (rule tidy_manualCheckPaymentStatus)
  with ManualCheck show ?thesis
    by (auto simp: step_def split: prod.splits option.splits intro!: tidy_emit)
next
  case (VisibilityChange h)
  with assms show ?thesis
    by (simp add: step_def tidy_def)
qed (use assms in \<open>auto simp: step_def split: option.splits
      intro!: tidy_keeps tidy_resume tidy_fold_handleFocus tidy_filter_timers
        tidy_filter_inflight\<close>)

lemma tidy_init: "tidy (init e None)"
  by (simp add: tidy_def referenced_def init_def)

lemma tidy_run: "tidy w \<Longrightarrow> tidy (run evs w)"
  unfolding run_def by (induction evs arbitrary: w) (auto intro: tidy_step)

lemma one_loop_without_document: "one_active (run evs (init e None))"
  by (simp add: tidy_one_active tidy_run tidy_init)

section \<open>One attempt of an armed loop\<close>

lemma armed_fire:
  assumes a: "armed pid oid m iv k w" and t: "timeoutId (pollers w ! pid) = Some t"
  shows "step (TimerFires t) w =
           emit (GetPaymentStatus (ByPoller pid) oid)
             (w\<lparr>timers := filter (\<lambda>e. fst e \<noteq> t) (timers w),
                pollers := (pollers w)[pid := (pollers w ! pid)\<lparr>attempts := int k + 1\<rparr>],
                inflight := inflight w @ [(next_query w, PollCont pid)],
                next_query := Suc (next_query w)\<rparr>)"
  using a t by (simp add: armed_def step_def poll_def Let_def)

lemma armed_complete:
  assumes a: "armed pid oid m iv k w" and t: "timeoutId (pollers w ! pid) = Some t"
  shows "attempt pid out w =
           poll_resume pid out
             (emit (GetPaymentStatus (ByPoller pid) oid)
               (w\<lparr>timers := filter (\<lambda>e. fst e \<noteq> t) (timers w),
                  pollers := (pollers w)[pid := (pollers w ! pid)\<lparr>attempts := int k + 1\<rparr>],
                  next_query := Suc (next_query w)\<rparr>))"
proof -
  from a have fr: "\<forall>e \<in> set (inflight w). fst e < next_query w"
    and len: "pid < length (pollers w)"
    by (simp_all add: armed_def)
  show ?thesis
    using len t
    by (simp add: attempt_def armed_fire [OF a t] step_QueryCompletes emit_def
        find_fresh [OF fr] filter_all_fresh [OF fr] resume_def)
qed

lemma armed_retry:
  assumes a: "armed pid oid m iv k w" and r: "\<not> isPaymentComplete r" and k: "int k + 1 < m"
  shows "armed pid oid m iv (Suc k) (attempt pid (Resolved r) w) \<and>
         engine_trace pid (attempt pid (Resolved r) w) =
           engine_trace pid w @ [GetPaymentStatus (ByPoller pid) oid]"
proof -
  from a obtain t where t: "timeoutId (pollers w ! pid) = Some t"
    by (auto simp: armed_def split: option.splits)
  from a t have only: "\<forall>e \<in> set (timers w). fst (snd e) = pid \<longrightarrow> fst e = t"
    and fr: "\<forall>e \<in> set (timers w). fst e < next_timer w"
    by (simp_all add: armed_def)
  have fr': "\<forall>e \<in> set (filter (\<lambda>e. fst e \<noteq> t) (timers w)). fst e < next_timer w"
    using fr by auto
  show ?thesis
    unfolding armed_complete [OF a t]
    using a t r k only fr
    by (auto simp: armed_def poll_resume_def poll_decide_def emit_def setTimeout_poll_def
        Let_def engine_trace_def of_poller_def find_fresh [OF fr'] less_Suc_eq)
qed

lemma armed_timeout:
  assumes a: "armed pid oid m iv k w" and r: "\<not> isPaymentComplete r" and k: "m \<le> int k + 1"
  shows "settled pid (engine_trace pid w @
           [GetPaymentStatus (ByPoller pid) oid, PollerCalls pid OnTimeout])
           (attempt pid (Resolved r) w)"
proof -
  from a obtain t where t: "timeoutId (pollers w ! pid) = Some t"
    by (auto simp: armed_def split: option.splits)
  define W where "W = emit (GetPaymentStatus (ByPoller pid) oid)
               (w\<lparr>timers := filter (\<lambda>e. fst e \<noteq> t) (timers w),
                  pollers := (pollers w)[pid := (pollers w ! pid)\<lparr>attempts := int k + 1\<rparr>],
                  next_query := Suc (next_query w)\<rparr>)"
  from a have len: "pid < length (pollers W)"
    by (simp add: W_def armed_def emit_def)
  from a r k have dec: "poll_decide (pollers W ! pid) (Resolved r) = CallOnTimeout"
    by (simp add: W_def armed_def emit_def poll_decide_def)
  from a t have only: "\<forall>e \<in> set (timers w). fst (snd e) = pid \<longrightarrow> fst e = t"
    by (simp add: armed_def)
  then have no_timer: "pid \<notin> (\<lambda>e. fst (snd e)) ` set (timers W)"
    by (force simp: W_def emit_def)
  from a have no_query: "PollCont pid \<notin> snd ` set (inflight W)"
    by (simp add: W_def armed_def emit_def)
  have tr: "engine_trace pid W = engine_trace pid w @ [GetPaymentStatus (ByPoller pid) oid]"
    by (simp add: W_def engine_trace_def emit_def of_poller_def)
  have "settled pid (engine_trace pid w @
           [GetPaymentStatus (ByPoller pid) oid, PollerCalls pid OnTimeout])
         (emit (PollerCalls pid OnTimeout)
            (W\<lparr>pollers := (pollers W)[pid := (pollers W ! pid)\<lparr>isPolling := False\<rparr>]\<rparr>))"
    using len no_timer no_query tr
    by (simp add: settled_def finished_def engine_trace_def emit_def of_poller_def)
  then have "settled pid (engine_trace pid w @
           [GetPaymentStatus (ByPoller pid) oid, PollerCalls pid OnTimeout])
         (poll_resume pid (Resolved r) W)"
    using len dec by (simp add: poll_resume_def Let_def settled_polling_onTimeout)
  then show ?thesis
    by (simp add: armed_complete [OF a t] W_def)
qed

lemma armed_rounds:
  assumes "armed pid oid m iv k w" and "\<forall>r \<in> set rs. \<not> isPaymentComplete r"
    and "int (k + length rs) < m"
  shows "armed pid oid m iv (k + length rs) (fold (\<lambda>r. attempt pid (Resolved r)) rs w) \<and>
         engine_trace pid (fold (\<lambda>r. attempt pid (Resolved r)) rs w) =
           engine_trace pid w @ replicate (length rs) (GetPaymentStatus (ByPoller pid) oid)"
  using assms
proof (induction rs arbitrary: k w)
  case Nil
  then show ?case by simp
next
  case (Cons r rs)
  from Cons.prems have first: "armed pid oid m iv (Suc k) (attempt pid (Resolved r) w) \<and>
         engine_trace pid (attempt pid (Resolved r) w) =
           engine_trace pid w @ [GetPaymentStatus (ByPoller pid) oid]"
    by (intro armed_retry) auto
  from Cons.prems have "int (Suc k + length rs) < m" and "\<forall>r \<in> set rs. \<not> isPaymentComplete r"
    by auto
  with first Cons.IH [of "Suc k" "attempt pid (Resolved r) w"] show ?case
    by (simp add: replicate_app_Cons_same)
qed

lemma armed_start:
  assumes wf: "well_formed w0"
    and st: "startPaymentPolling oid expected opts w0 = (pid, w1)"
  shows "armed pid oid (case opt_maxAttempts opts of None \<Rightarrow> 60 | Some m \<Rightarrow> m)
           (case opt_interval opts of None \<Rightarrow> 2000 | Some i \<Rightarrow> i) 0 w1 \<and>
         engine_trace pid w1 = engine_trace pid w0"
proof -
  let ?m = "case opt_maxAttempts opts of None \<Rightarrow> 60 | Some m \<Rightarrow> m"
  let ?iv = "case opt_interval opts of None \<Rightarrow> 2000 | Some i \<Rightarrow> i"
  from wf have f1: "\<forall>e \<in> set (timers w0). fst e < next_timer w0"
    by (simp add: well_formed_def)
  from wf have f2: "\<forall>e \<in> set (timers w0). fst (snd e) \<noteq> length (pollers w0)"
    by (force simp: well_formed_def)
  from wf have f3: "\<forall>e \<in> set (inflight w0). fst e < next_query w0"
    by (simp add: well_formed_def)
  from wf have f4: "PollCont (length (pollers w0)) \<notin> snd ` set (inflight w0)"
    by (force simp: well_formed_def)
  from st have pid: "pid = length (pollers w0)"
    and w1: "w1 = w0\<lparr>pollers := pollers w0 @
                 [\<lparr>poll_orderId = oid, expectedAttach = expected,
                     captured = opt_callbacks opts, maxAttempts = ?m, interval = ?iv,
                     attempts = 0, isPolling = True,
                     timeoutId = Some (next_timer w0)\<rparr>],
                 timers := timers w0 @ [(next_timer w0, length (pollers w0), ?iv)],
                 next_timer := Suc (next_timer w0)\<rparr>"
    by (auto simp: startPaymentPolling_def setTimeout_poll_def Let_def)
  have "\<forall>e \<in> set (timers w1). fst (snd e) = pid \<longrightarrow> fst e = next_timer w0"
    using f2 by (auto simp: w1 pid)
  moreover have "\<forall>e \<in> set (timers w1). fst e < next_timer w1"
    using f1 by (auto simp: w1 less_Suc_eq)
  moreover have "\<forall>e \<in> set (inflight w1). fst e < next_query w1"
    using f3 by (simp add: w1)
  moreover have "PollCont pid \<notin> snd ` set (inflight w1)"
    using f4 by (simp add: w1 pid)
  moreover have "find (\<lambda>e. fst e = next_timer w0) (timers w1) = Some (next_timer w0, pid, ?iv)"
    by (simp add: w1 pid find_fresh [OF f1])
  ultimately show ?thesis
    by (simp add: armed_def engine_trace_def) (simp add: w1 pid)
qed

section \<open>A loop that runs out of attempts\<close>

lemma armed_retry_trace:
  assumes a: "armed pid oid m iv k w" and r: "\<not> isPaymentComplete r" and k: "int k + 1 < m"
  shows "trace (attempt pid (Resolved r) w) = trace w @ [GetPaymentStatus (ByPoller pid) oid] \<and>
         captured (pollers (attempt pid (Resolved r) w) ! pid) = captured (pollers w ! pid)"
proof -
  from a obtain t where t: "timeoutId (pollers w ! pid) = Some t"
    by (auto simp: armed_def split: option.splits)
  show ?thesis
    unfolding armed_complete [OF a t]
    using a r k
    by (simp add: armed_def poll_resume_def poll_decide_def emit_def setTimeout_poll_def Let_def)
qed

lemma armed_rounds_trace:
  assumes "armed pid oid m iv k w" and "\<forall>r \<in> set rs. \<not> isPaymentComplete r"
    and "int (k + length rs) < m"
  shows "trace (fold (\<lambda>r. attempt pid (Resolved r)) rs w) =
           trace w @ replicate (length rs) (GetPaymentStatus (ByPoller pid) oid) \<and>
         captured (pollers (fold (\<lambda>r. attempt pid (Resolved r)) rs w) ! pid) =
           captured (pollers w ! pid)"
  using assms
proof (induction rs arbitrary: k w)
  case Nil
  then show ?case by simp
next
  case (Cons r rs)
  from Cons.prems have a': "armed pid oid m iv (Suc k) (attempt pid (Resolved r) w)"
    using armed_retry [of pid oid m iv k w r] by auto
  from Cons.prems have first: "trace (attempt pid (Resolved r) w) =
      trace w @ [GetPaymentStatus (ByPoller pid) oid] \<and>
      captured (pollers (attempt pid (Resolved r) w) ! pid) = captured (pollers w ! pid)"
    by (intro armed_retry_trace) auto
  from Cons.prems have "int (Suc k + length rs) < m" and "\<forall>r \<in> set rs. \<not> isPaymentComplete r"
    by auto
  with a' first Cons.IH [of "Suc k" "attempt pid (Resolved r) w"] show ?case
    by (simp add: replicate_app_Cons_same)
qed

lemma armed_timeout_trace:
  assumes a: "armed pid oid m iv k w" and r: "\<not> isPaymentComplete r" and k: "m \<le> int k + 1"
  shows "trace (attempt pid (Resolved r) w) =
           trace w @ [GetPaymentStatus (ByPoller pid) oid, PollerCalls pid OnTimeout] @
           (case onTimeout (captured (pollers w ! pid)) of
              None \<Rightarrow> [] | Some f \<Rightarrow> [Called f NoPayload]) @
           [Notify ModalQueryTimeout]"
proof -
  from a obtain t where t: "timeoutId (pollers w ! pid) = Some t"
    by (auto simp: armed_def split: option.splits)
  show ?thesis
    unfolding armed_complete [OF a t]
    using a r k
    by (simp add: armed_def poll_resume_def poll_decide_def emit_def Let_def
        polling_onTimeout_def call_optional_def split: option.splits)
qed

text \<open>
  A loop is started with a budget \<^verbatim>\<open>maxAttempts\<close> of \<open>length rs\<close> attempts, at least one
  (given in the options or by the default of 60), in a well-formed world, and each of
  its queries finds the payment incomplete (the responses \<open>rs\<close>). Attempts are numbered
  from 1: after \<open>k\<close> attempts, \<open>k\<close> below the budget, the attempt count is \<open>k\<close>, the loop
  is still polling, it has sent exactly \<open>k\<close> queries and called nothing, and its next
  attempt is scheduled after \<^verbatim>\<open>interval\<close>. After the last attempt, and after any events
  whatsoever that follow, this loop has sent exactly as many queries as its budget and
  has made its \<^verbatim>\<open>onTimeout\<close> call exactly once, after the last query.
\<close>

lemma engine_timeout_after_maxAttempts:
  assumes wf: "well_formed w0"
    and st: "startPaymentPolling oid expected opts w0 = (pid, w1)"
    and budget: "(case opt_maxAttempts opts of None \<Rightarrow> 60 | Some m \<Rightarrow> m) = int (length rs)"
    and iv: "iv = (case opt_interval opts of None \<Rightarrow> 2000 | Some i \<Rightarrow> i)"
    and ne: "rs \<noteq> []"
    and inc: "\<forall>r \<in> set rs. \<not> isPaymentComplete r"
  shows "(\<forall>k < length rs.
            attempts (pollers (attempts_with pid (take k rs) w1) ! pid) = int k \<and>
            isPolling (pollers (attempts_with pid (take k rs) w1) ! pid) \<and>
            (\<exists>t. timeoutId (pollers (attempts_with pid (take k rs) w1) ! pid) = Some t \<and>
                 (t, pid, iv) \<in> set (timers (attempts_with pid (take k rs) w1))) \<and>
            engine_trace pid (attempts_with pid (take k rs) w1) =
              engine_trace pid w0 @ replicate k (GetPaymentStatus (ByPoller pid) oid)) \<and>
         (\<forall>evs. engine_trace pid (run evs (attempts_with pid rs w1)) =
            engine_trace pid w0 @ replicate (length rs) (GetPaymentStatus (ByPoller pid) oid) @
              [PollerCalls pid OnTimeout])"
proof (intro conjI allI impI)
  from armed_start [OF wf st] budget iv
  have a0: "armed pid oid (int (length rs)) iv 0 w1"
    and t0: "engine_trace pid w1 = engine_trace pid w0"
    by simp_all
  {
    fix k assume k: "k < length rs"
    let ?w = "attempts_with pid (take k rs) w1"
    from inc have "\<forall>r \<in> set (take k rs). \<not> isPaymentComplete r"
      by (auto dest: in_set_takeD)
    moreover from k have "int (0 + length (take k rs)) < int (length rs)"
      by simp
    ultimately have "armed pid oid (int (length rs)) iv (0 + length (take k rs)) ?w \<and>
        engine_trace pid ?w =
          engine_trace pid w1 @
            replicate (length (take k rs)) (GetPaymentStatus (ByPoller pid) oid)"
      unfolding attempts_with_def by (intro armed_rounds [OF a0])
    with k t0 have ar: "armed pid oid (int (length rs)) iv k ?w"
      and tr: "engine_trace pid ?w =
        engine_trace pid w0 @ replicate k (GetPaymentStatus (ByPoller pid) oid)"
      by (simp_all add: min_def)
    from ar show "attempts (pollers ?w ! pid) = int k" by (simp add: armed_def)
    from ar show "isPolling (pollers ?w ! pid)" by (simp add: armed_def)
    from ar show "\<exists>t. timeoutId (pollers ?w ! pid) = Some t \<and> (t, pid, iv) \<in> set (timers ?w)"
      by (auto simp: armed_def split: option.splits dest: find_SomeD)
    from tr show "engine_trace pid ?w =
        engine_trace pid w0 @ replicate k (GetPaymentStatus (ByPoller pid) oid)" .
  }
  fix evs
  let ?n = "length rs - 1"
  let ?w = "fold (\<lambda>r. attempt pid (Resolved r)) (butlast rs) w1"
  from ne have split: "rs = butlast rs @ [last rs]"
    by simp
  from inc have "\<forall>r \<in> set (butlast rs). \<not> isPaymentComplete r"
    by (auto dest: in_set_butlastD)
  moreover from ne have "int (0 + length (butlast rs)) < int (length rs)"
    by simp
  ultimately have "armed pid oid (int (length rs)) iv (0 + length (butlast rs)) ?w \<and>
      engine_trace pid ?w =
        engine_trace pid w1 @
          replicate (length (butlast rs)) (GetPaymentStatus (ByPoller pid) oid)"
    by (intro armed_rounds [OF a0])
  with t0 have ar: "armed pid oid (int (length rs)) iv ?n ?w"
    and tr: "engine_trace pid ?w =
      engine_trace pid w0 @ replicate ?n (GetPaymentStatus (ByPoller pid) oid)"
    by simp_all
  from ne inc have "\<not> isPaymentComplete (last rs)"
    by simp
  moreover from ne have "int (length rs) \<le> int ?n + 1"
    by (cases rs) simp_all
  ultimately have "settled pid (engine_trace pid ?w @
           [GetPaymentStatus (ByPoller pid) oid, PollerCalls pid OnTimeout])
           (attempt pid (Resolved (last rs)) ?w)"
    by (intro armed_timeout [OF ar])
  moreover have "attempts_with pid rs w1 = attempt pid (Resolved (last rs)) ?w"
    unfolding attempts_with_def by (subst split) simp
  ultimately have "settled pid (engine_trace pid ?w @
           [GetPaymentStatus (ByPoller pid) oid, PollerCalls pid OnTimeout])
           (run evs (attempts_with pid rs w1))"
    by (simp add: settled_run)
  then have "engine_trace pid (run evs (attempts_with pid rs w1)) =
      engine_trace pid w0 @ replicate ?n (GetPaymentStatus (ByPoller pid) oid) @
        [GetPaymentStatus (ByPoller pid) oid, PollerCalls pid OnTimeout]"
    by (simp add: settled_def tr)
  also have "replicate ?n (GetPaymentStatus (ByPoller pid) oid) @
        [GetPaymentStatus (ByPoller pid) oid, PollerCalls pid OnTimeout] =
      replicate (length rs) (GetPaymentStatus (ByPoller pid) oid) @ [PollerCalls pid OnTimeout]"
    using ne by (cases rs) (simp_all add: replicate_append_same)
  finally show "engine_trace pid (run evs (attempts_with pid rs w1)) =
            engine_trace pid w0 @ replicate (length rs) (GetPaymentStatus (ByPoller pid) oid) @
              [PollerCalls pid OnTimeout]" .
qed

text \<open>
  In the same run nothing but the loop acts, and the whole trace is: the queries, the
  loop's \<^verbatim>\<open>onTimeout\<close> call, the one call of the caller's \<^verbatim>\<open>onTimeout\<close> that the
  manager's wrapper makes (when the caller gave one), and the wrapper's notice.
\<close>

lemma engine_timeout_calls_back:
  assumes wf: "well_formed w0"
    and st: "startPaymentPolling oid expected opts w0 = (pid, w1)"
    and budget: "(case opt_maxAttempts opts of None \<Rightarrow> 60 | Some m \<Rightarrow> m) = int (length rs)"
    and ne: "rs \<noteq> []"
    and inc: "\<forall>r \<in> set rs. \<not> isPaymentComplete r"
  shows "trace (attempts_with pid rs w1) =
           trace w0 @ replicate (length rs) (GetPaymentStatus (ByPoller pid) oid) @
           [PollerCalls pid OnTimeout] @
           (case onTimeout (opt_callbacks opts) of
              None \<Rightarrow> [] | Some f \<Rightarrow> [Called f NoPayload]) @
           [Notify ModalQueryTimeout]"
proof -
  let ?iv = "case opt_interval opts of None \<Rightarrow> 2000 | Some i \<Rightarrow> i"
  let ?n = "length rs - 1"
  let ?w = "fold (\<lambda>r. attempt pid (Resolved r)) (butlast rs) w1"
  let ?Q = "GetPaymentStatus (ByPoller pid) oid"
  from armed_start [OF wf st] budget
  have a0: "armed pid oid (int (length rs)) ?iv 0 w1"
    by simp
  from st have t0: "trace w1 = trace w0"
    using trace_startPaymentPolling [of oid expected opts w0] by simp
  from st have c0: "captured (pollers w1 ! pid) = opt_callbacks opts"
    by (auto simp: startPaymentPolling_def setTimeout_poll_def Let_def)
  from ne have split: "rs = butlast rs @ [last rs]"
    by simp
  from inc have i: "\<forall>r \<in> set (butlast rs). \<not> isPaymentComplete r"
    by (auto dest: in_set_butlastD)
  from ne have l: "int (0 + length (butlast rs)) < int (length rs)"
    by simp
  from i l have "armed pid oid (int (length rs)) ?iv (0 + length (butlast rs)) ?w \<and>
      engine_trace pid ?w =
        engine_trace pid w1 @ replicate (length (butlast rs)) ?Q"
    by (intro armed_rounds [OF a0])
  then have ar: "armed pid oid (int (length rs)) ?iv ?n ?w"
    by simp
  from i l have "trace ?w = trace w1 @ replicate (length (butlast rs)) ?Q \<and>
      captured (pollers ?w ! pid) = captured (pollers w1 ! pid)"
    by (intro armed_rounds_trace [OF a0])
  with t0 c0 have tr: "trace ?w = trace w0 @ replicate ?n ?Q"
    and cp: "captured (pollers ?w ! pid) = opt_callbacks opts"
    by simp_all
  from ne inc have "\<not> isPaymentComplete (last rs)"
    by simp
  moreover from ne have "int (length rs) \<le> int ?n + 1"
    by (cases rs) simp_all
  ultimately have "trace (attempt pid (Resolved (last rs)) ?w) =
      trace ?w @ [?Q, PollerCalls pid OnTimeout] @
        (case onTimeout (captured (pollers ?w ! pid)) of
           None \<Rightarrow> [] | Some f \<Rightarrow> [Called f NoPayload]) @
        [Notify ModalQueryTimeout]"
    by (intro armed_timeout_trace [OF ar])
  moreover have "attempts_with pid rs w1 = attempt pid (Resolved (last rs)) ?w"
    unfolding attempts_with_def by (subst split) simp
  moreover have "replicate ?n ?Q @ [?Q] = replicate (length rs) ?Q"
    using ne by (cases rs) (simp_all add: replicate_append_same)
  ultimately show ?thesis
    by (simp add: tr cp del: replicate.simps)
qed

text \<open>For a budget of three attempts:\<close>

lemma engine_timeout_example:
  "attempts (pollers (attempts_with 0 [pending, pending] three_attempts) ! 0) = 2 \<and>
   timers (attempts_with 0 [pending, pending] three_attempts) = [(2, 0, 1000)] \<and>
   engine_trace 0
     (run [TimerFires 3, QueryCompletes 3 (Resolved (paid ''TOK1'')), HandlePageShow]
        (attempts_with 0 [pending, pending, pending] three_attempts)) =
     [GetPaymentStatus (ByPoller 0) ''ORD1'', GetPaymentStatus (ByPoller 0) ''ORD1'',
      GetPaymentStatus (ByPoller 0) ''ORD1'', PollerCalls 0 OnTimeout]"
proof -
  let ?opts = "\<lparr>opt_callbacks = cb1, opt_maxAttempts = Some 3, opt_interval = Some 1000\<rparr>"
  have wf: "well_formed (init WEAPP None)"
    by (simp add: well_formed_def init_def)
  have st: "startPaymentPolling ''ORD1'' ''TOK1'' ?opts (init WEAPP None) = (0, three_attempts)"
    by (simp add: three_attempts_def startPaymentPolling_def Let_def init_def)
  have budget: "(case opt_maxAttempts ?opts of None \<Rightarrow> 60 | Some m \<Rightarrow> m) =
      int (length [pending, pending, pending])"
    by simp
  have iv: "(1000::int) = (case opt_interval ?opts of None \<Rightarrow> 2000 | Some i \<Rightarrow> i)"
    by simp
  have inc: "\<forall>r \<in> set [pending, pending, pending]. \<not> isPaymentComplete r"
    by (simp add: pending_def isPaymentComplete_def truthy_string_def)
  have ne: "[pending, pending, pending] \<noteq> []"
    by simp
  have t: "timers (attempts_with 0 [pending, pending] three_attempts) = [(2, 0, 1000)]"
    by code_simp
  have e: "engine_trace 0 (init WEAPP None) = []"
    by (simp add: engine_trace_def init_def)
  note main = engine_timeout_after_maxAttempts [OF wf st budget iv ne inc]
  from conjunct1 [OF main, rule_format, of 2]
  have a: "attempts (pollers (attempts_with 0 [pending, pending] three_attempts) ! 0) = 2"
    by simp
  from conjunct2 [OF main, rule_format,
      of "[TimerFires 3, QueryCompletes 3 (Resolved (paid ''TOK1'')), HandlePageShow]"]
  have b: "engine_trace 0
     (run [TimerFires 3, QueryCompletes 3 (Resolved (paid ''TOK1'')), HandlePageShow]
        (attempts_with 0 [pending, pending, pending] three_attempts)) =
      engine_trace 0 (init WEAPP None) @
      replicate (length [pending, pending, pending]) (GetPaymentStatus (ByPoller 0) ''ORD1'') @
        [PollerCalls 0 OnTimeout]"
    by simp
  from a b t e show ?thesis
    by (simp add: numeral_3_eq_3)
qed

section \<open>What \<^verbatim>\<open>cleanup()\<close> leaves of the loops\<close>

text \<open>
  When the session has no saved visibility handler, or the page is not a visible
  document, \<^verbatim>\<open>cleanup()\<close> adds no loop, adds no timer and sets no loop polling; and then
  the completion of a manual check does not either.
\<close>

lemma timers_polling_cleanup: "set (timers (polling_cleanup p w)) \<subseteq> set (timers w)"
  by (auto simp: polling_cleanup_def Let_def split: option.splits)

lemma cleanup_without_handler:
  assumes "state w = Some s"
    and "visibilityChangeHandler s = None \<or> document_hidden w \<noteq> Some False"
  shows "length (pollers (cleanup w)) = length (pollers w) \<and>
         set (timers (cleanup w)) \<subseteq> set (timers w) \<and>
         (\<forall>i < length (pollers w).
            isPolling (pollers (cleanup w) ! i) \<longrightarrow> isPolling (pollers w ! i))"
proof -
  let ?w1 = "case pollingCleanup s of None \<Rightarrow> w | Some pid \<Rightarrow> polling_cleanup pid w"
  have w1: "length (pollers ?w1) = length (pollers w) \<and>
         set (timers ?w1) \<subseteq> set (timers w) \<and>
         (\<forall>i < length (pollers w). isPolling (pollers ?w1 ! i) \<longrightarrow> isPolling (pollers w ! i)) \<and>
         document_hidden ?w1 = document_hidden w"
    using timers_polling_cleanup by (cases "pollingCleanup s") auto
  from assms(2) show ?thesis
  proof
    assume "visibilityChangeHandler s = None"
    with assms(1) have "cleanup w = ?w1\<lparr>state := None\<rparr>"
      by (simp add: cleanup_def)
    with w1 show ?thesis by simp
  next
    assume h: "document_hidden w \<noteq> Some False"
    show ?thesis
    proof (cases "visibilityChangeHandler s")
      case None
      with assms(1) have "cleanup w = ?w1\<lparr>state := None\<rparr>"
        by (simp add: cleanup_def)
      with w1 show ?thesis by simp
    next
      case (Some cbs)
      with assms(1) h w1 have "cleanup w =
          ?w1\<lparr>visibilitychange_listeners := remove1 cbs (visibilitychange_listeners ?w1),
               focus_listeners := remove1 cbs (focus_listeners ?w1), state := None\<rparr>"
        by (simp add: cleanup_def visibility_cleanup_def handleVisibilityChange_def Let_def)
      with w1 show ?thesis by simp
    qed
  qed
qed

lemma manual_check_starts_nothing:
  assumes "\<forall>s. state w = Some s \<longrightarrow>
             visibilityChangeHandler s = None \<or> document_hidden w \<noteq> Some False"
  shows "length (pollers (snd (manualCheck_resume out w))) = length (pollers w) \<and>
         set (timers (snd (manualCheck_resume out w))) \<subseteq> set (timers w) \<and>
         (\<forall>i < length (pollers w).
            isPolling (pollers (snd (manualCheck_resume out w)) ! i) \<longrightarrow>
            isPolling (pollers w ! i))"
proof (cases "state w")
  case None
  then show ?thesis
    by (cases out) (simp_all add: manualCheck_resume_def emit_def)
next
  case (Some s)
  with assms have "visibilityChangeHandler s = None \<or> document_hidden w \<noteq> Some False"
    by simp
  from cleanup_without_handler [OF Some this] Some show ?thesis
    by (cases out) (simp_all add: manualCheck_resume_def emit_def)
qed

section \<open>The claims of the specification\<close>

subsection \<open>C1: callbacks after cancellation\<close>

text \<open>
  C1. The claim: once \<^verbatim>\<open>cleanup()\<close> has been invoked while a status query is
  outstanding, no callback fires when that query resolves. The code: the cleanup function
  of the loop sets \<^verbatim>\<open>isPolling = false\<close> and clears the timer, but \<^verbatim>\<open>poll\<close> tests
  \<^verbatim>\<open>isPolling\<close> only before its \<^verbatim>\<open>await\<close> and before re-arming the timer, not before
  it calls back. In the scenario \<open>cancelled_in_flight\<close> the session is gone, the loop is
  stopped and no timer is pending; the outstanding query then resolves with a paid
  response and the caller's \<^verbatim>\<open>onSuccess\<close> (function 1) is called; when it is rejected
  instead, \<^verbatim>\<open>onFailed\<close> (function 2) is called.
\<close>

theorem C1_callback_after_cleanup:
  "state cancelled_in_flight = None \<and>
   map isPolling (pollers cancelled_in_flight) = [False] \<and>
   timers cancelled_in_flight = [] \<and>
   inflight cancelled_in_flight = [(1, PollCont 0)] \<and>
   trace (step (QueryCompletes 1 (Resolved (paid ''TOK1''))) cancelled_in_flight) =
     trace cancelled_in_flight @
       [PollerCalls 0 (OnSuccess (Response (paid ''TOK1''))),
        Called 1 (Response (paid ''TOK1''))] \<and>
   trace (step (QueryCompletes 1 Rejected) cancelled_in_flight) =
     trace cancelled_in_flight @
       [PollerCalls 0 (OnFailed (StatusMessage ''failed'' query_failed_text)),
        Called 2 (StatusMessage ''failed'' query_failed_text),
        Notify (ToastFailure query_failed_text)]"
  by code_simp

subsection \<open>C2: each callback at most once\<close>

text \<open>
  C2. The claim: each of the caller's callbacks is invoked at most once per session,
  whatever the interleaving. The code: in the mini-program scenario \<open>overlapping_checks\<close>
  (one \<^verbatim>\<open>startPayment\<close>) the second one-shot check reports success and cleans up while
  the loop's query is outstanding, and the loop reports success again when its query
  resolves; in the browser scenario \<open>browser_success\<close> (one \<^verbatim>\<open>startPayment\<close>) the cleanup
  run by the success wrapper starts another loop, which reports success a second time.
  In both, \<^verbatim>\<open>onSuccess\<close> (function 1) is called twice.
\<close>

theorem C2_onSuccess_twice:
  "calls_of 1 (trace (run overlapping_checks (init WEAPP None))) =
     [Called 1 (Response (paid ''TOK1'')), Called 1 (Response (paid ''TOK1''))] \<and>
   calls_of 1 (trace (run browser_success (init WEB (Some False)))) =
     [Called 1 (Response (paid ''TOK1'')), Called 1 (Response (paid ''TOK1''))]"
  by code_simp

subsection \<open>C3: a gateway error during polling\<close>

text \<open>
  The claim has a rejected query with the budget exhausted end in \<^verbatim>\<open>onTimeout\<close>. In
  \<open>exhausted_on_error\<close>, a loop of one attempt whose only query is rejected, the loop calls
  \<^verbatim>\<open>onFailed\<close> with the query-failed message, and \<^verbatim>\<open>onTimeout\<close> is never called.
\<close>

theorem C3_counterexample:
  "trace exhausted_on_error =
     [GetPaymentStatus (ByPoller 0) ''ORD1'',
      PollerCalls 0 (OnFailed (StatusMessage ''failed'' query_failed_text)),
      Called 2 (StatusMessage ''failed'' query_failed_text),
      Notify (ToastFailure query_failed_text)] \<and>
   PollerCalls 0 OnTimeout \<notin> set (trace exhausted_on_error)"
  by code_simp

text \<open>
  C3, as the code has it. When a status query of a polling loop is rejected: if attempts
  remain (\<^verbatim>\<open>attempts < maxAttempts\<close>) and the loop is still polling, nothing is called,
  the loop stays polling with its attempt count unchanged, and the next attempt is
  scheduled after \<^verbatim>\<open>interval\<close>; if the budget is exhausted, the loop calls \<^verbatim>\<open>onFailed\<close>
  with the object \<^verbatim>\<open>{status: 'failed', message}\<close> (so the caller's \<^verbatim>\<open>onFailed\<close> runs and
  the failure toast is shown), and \<^verbatim>\<open>onTimeout\<close> is not called.
\<close>

theorem C3_gateway_error:
  assumes "pid < length (pollers w)"
  shows "(attempts (pollers w ! pid) < maxAttempts (pollers w ! pid) \<and>
          isPolling (pollers w ! pid) \<longrightarrow>
            trace (poll_resume pid Rejected w) = trace w \<and>
            timers (poll_resume pid Rejected w) =
              timers w @ [(next_timer w, pid, interval (pollers w ! pid))] \<and>
            isPolling (pollers (poll_resume pid Rejected w) ! pid) \<and>
            attempts (pollers (poll_resume pid Rejected w) ! pid) = attempts (pollers w ! pid)) \<and>
         (maxAttempts (pollers w ! pid) \<le> attempts (pollers w ! pid) \<longrightarrow>
            trace (poll_resume pid Rejected w) =
              trace w @
              [PollerCalls pid (OnFailed (StatusMessage ''failed'' query_failed_text))] @
              (case onFailed (captured (pollers w ! pid)) of
                 None \<Rightarrow> []
               | Some f \<Rightarrow> [Called f (StatusMessage ''failed'' query_failed_text)]) @
              [Notify (ToastFailure query_failed_text)])"
  using assms
  by (auto simp: poll_resume_def poll_decide_def Let_def setTimeout_poll_def
      polling_onFailed_def emit_def call_optional_def failure_title_def query_failed_text_def
      split: option.splits)

theorem C3_gateway_error_witness:
  "trace (poll_resume 0 Rejected first_of_three_sent) = trace first_of_three_sent \<and>
   timers (poll_resume 0 Rejected first_of_three_sent) = [(1, 0, 1000)] \<and>
   trace (poll_resume 0 Rejected one_attempt_sent) =
     [GetPaymentStatus (ByPoller 0) ''ORD1'',
      PollerCalls 0 (OnFailed (StatusMessage ''failed'' query_failed_text)),
      Called 2 (StatusMessage ''failed'' query_failed_text),
      Notify (ToastFailure query_failed_text)]"
proof -
  have l3: "0 < length (pollers first_of_three_sent)"
    and l1: "0 < length (pollers one_attempt_sent)"
    by code_simp+
  have p3: "map (\<lambda>p. (attempts p, maxAttempts p, isPolling p, interval p))
              (pollers first_of_three_sent) = [(1, 3, True, 1000)]"
    by code_simp
  have p1: "map (\<lambda>p. (attempts p, maxAttempts p, onFailed (captured p)))
              (pollers one_attempt_sent) = [(1, 1, Some 2)]"
    by code_simp
  have t3: "timers first_of_three_sent = []" "next_timer first_of_three_sent = 1"
    by code_simp+
  have t1: "trace one_attempt_sent = [GetPaymentStatus (ByPoller 0) ''ORD1'']"
    by code_simp
  from p3 obtain a where a: "pollers first_of_three_sent = [a]"
    "attempts a = 1" "maxAttempts a = 3" "isPolling a" "interval a = 1000"
    by (cases "pollers first_of_three_sent") auto
  from p1 obtain b where b: "pollers one_attempt_sent = [b]"
    "attempts b = 1" "maxAttempts b = 1" "onFailed (captured b) = Some 2"
    by (cases "pollers one_attempt_sent") auto
  from C3_gateway_error [OF l3] a t3
  have r3: "trace (poll_resume 0 Rejected first_of_three_sent) = trace first_of_three_sent \<and>
   timers (poll_resume 0 Rejected first_of_three_sent) = [(1, 0, 1000)]"
    by simp
  from C3_gateway_error [OF l1] b t1
  have r1: "trace (poll_resume 0 Rejected one_attempt_sent) =
     [GetPaymentStatus (ByPoller 0) ''ORD1'',
      PollerCalls 0 (OnFailed (StatusMessage ''failed'' query_failed_text)),
      Called 2 (StatusMessage ''failed'' query_failed_text),
      Notify (ToastFailure query_failed_text)]"
    by simp
  from r3 r1 show ?thesis
    by simp
qed

subsection \<open>C4: a resume signal while polling\<close>

text \<open>
  The claim has a resume signal leave a running loop alone. In \<open>polling_browser\<close> the loop
  has made one attempt and is polling; \<^verbatim>\<open>handlePageShow\<close>, and likewise a focus event,
  stops it and starts a second loop whose attempt count is 0.
\<close>

theorem C4_counterexample:
  "pollers (step HandlePageShow polling_browser) \<noteq> pollers polling_browser \<and>
   map (\<lambda>p. (attempts p, isPolling p)) (pollers polling_browser) = [(1, True)] \<and>
   map (\<lambda>p. (attempts p, isPolling p)) (pollers (step HandlePageShow polling_browser)) =
     [(1, False), (0, True)] \<and>
   map (\<lambda>p. (attempts p, isPolling p)) (pollers (step Focus polling_browser)) =
     [(1, False), (0, True)]"
  by code_simp

text \<open>
  C4, as the code has it. With a session whose loop \<open>pid\<close> is running, \<^verbatim>\<open>startPolling\<close>
  restarts polling: loop \<open>pid\<close> is stopped and its pending timer removed, a new loop is
  added with 30 attempts, 3000 ms apart, an attempt count of 0 and its first timer
  pending, and the state refers to the new loop. A focus event and, with the page
  visible, a visibility event do exactly that; so does \<^verbatim>\<open>handlePageShow\<close> in the browser;
  in the mini-program \<^verbatim>\<open>handlePageShow\<close> sends a one-shot status query and leaves the
  loops as they are, and restarts polling when that query is rejected or finds the
  payment incomplete.
\<close>

theorem C4_resume_restarts_polling:
  assumes s: "state w = Some s" and pol: "state_isPolling s"
    and pc: "pollingCleanup s = Some pid" and len: "pid < length (pollers w)"
  shows "pollers (startPolling cbs w) =
           (pollers w)[pid := (pollers w ! pid)\<lparr>isPolling := False, timeoutId := None\<rparr>] @
           [\<lparr>poll_orderId = state_orderId s, expectedAttach = state_attach s, captured = cbs,
             maxAttempts = 30, interval = 3000, attempts = 0, isPolling = True,
             timeoutId = Some (next_timer w)\<rparr>] \<and>
         timers (startPolling cbs w) =
           filter (\<lambda>e. Some (fst e) \<noteq> timeoutId (pollers w ! pid)) (timers w) @
           [(next_timer w, length (pollers w), 3000)] \<and>
         state (startPolling cbs w) = Some (s\<lparr>pollingCleanup := Some (length (pollers w))\<rparr>) \<and>
         handleFocus cbs w = startPolling cbs w \<and>
         (document_hidden w = Some False \<longrightarrow> handleVisibilityChange cbs w = startPolling cbs w) \<and>
         (env w = WEB \<longrightarrow> handlePageShow w = startPolling (callbacks_or_empty s) w) \<and>
         (env w = WEAPP \<longrightarrow>
            handlePageShow w = checkPaymentStatusOnce w \<and>
            pollers (checkPaymentStatusOnce w) = pollers w \<and>
            (\<not> isPaymentComplete r \<longrightarrow>
               checkPaymentStatusOnce_resume (Resolved r) w =
                 startPolling (callbacks_or_empty s) w) \<and>
            checkPaymentStatusOnce_resume Rejected w = startPolling (callbacks_or_empty s) w)"
proof -
  have pollers_eq: "pollers (startPolling cbs w) =
           (pollers w)[pid := (pollers w ! pid)\<lparr>isPolling := False, timeoutId := None\<rparr>] @
           [\<lparr>poll_orderId = state_orderId s, expectedAttach = state_attach s, captured = cbs,
             maxAttempts = 30, interval = 3000, attempts = 0, isPolling = True,
             timeoutId = Some (next_timer w)\<rparr>]"
    using s pol pc len
    by (cases "timeoutId (pollers w ! pid)")
       (simp_all add: startPolling_def polling_cleanup_def startPaymentPolling_def
         setTimeout_poll_def Let_def stop_poller)
  have timers_eq: "timers (startPolling cbs w) =
           filter (\<lambda>e. Some (fst e) \<noteq> timeoutId (pollers w ! pid)) (timers w) @
           [(next_timer w, length (pollers w), 3000)]"
    using s pol pc len
    by (cases "timeoutId (pollers w ! pid)")
       (simp_all add: startPolling_def polling_cleanup_def startPaymentPolling_def
         setTimeout_poll_def Let_def)
  have state_eq: "state (startPolling cbs w) =
      Some (s\<lparr>pollingCleanup := Some (length (pollers w))\<rparr>)"
    using s pol pc len
    by (cases "timeoutId (pollers w ! pid)")
       (simp_all add: startPolling_def polling_cleanup_def startPaymentPolling_def
         setTimeout_poll_def Let_def)
  have rest: "handleFocus cbs w = startPolling cbs w \<and>
         (document_hidden w = Some False \<longrightarrow> handleVisibilityChange cbs w = startPolling cbs w) \<and>
         (env w = WEB \<longrightarrow> handlePageShow w = startPolling (callbacks_or_empty s) w) \<and>
         (env w = WEAPP \<longrightarrow>
            handlePageShow w = checkPaymentStatusOnce w \<and>
            pollers (checkPaymentStatusOnce w) = pollers w \<and>
            (\<not> isPaymentComplete r \<longrightarrow>
               checkPaymentStatusOnce_resume (Resolved r) w =
                 startPolling (callbacks_or_empty s) w) \<and>
            checkPaymentStatusOnce_resume Rejected w = startPolling (callbacks_or_empty s) w)"
    using s pol
    by (simp add: handleFocus_def handleVisibilityChange_def handlePageShow_def
        checkPaymentStatusOnce_def checkPaymentStatusOnce_resume_def Let_def emit_def)
  from pollers_eq timers_eq state_eq rest show ?thesis
    by simp
qed

theorem C4_resume_restarts_polling_witness:
  "map (\<lambda>p. (attempts p, isPolling p, timeoutId p)) (pollers polling_browser) =
     [(1, True, Some 1)] \<and>
   map (\<lambda>p. (attempts p, isPolling p, timeoutId p)) (pollers (handlePageShow polling_browser)) =
     [(1, False, None), (0, True, Some 2)] \<and>
   timers (handlePageShow polling_browser) = [(2, 1, 3000)]"
proof -
  have s: "state polling_browser = Some browser_state"
    by code_simp
  have pol: "state_isPolling browser_state" and pc: "pollingCleanup browser_state = Some 0"
    by (simp_all add: browser_state_def)
  have len: "0 < length (pollers polling_browser)"
    by code_simp
  have web: "env polling_browser = WEB"
    by code_simp
  have before: "map (\<lambda>p. (attempts p, isPolling p, timeoutId p)) (pollers polling_browser) =
     [(1, True, Some 1)]"
    by code_simp
  have tm: "timers polling_browser = [(1, 0, 3000)]" and nt: "next_timer polling_browser = 2"
    by code_simp+
  note main = C4_resume_restarts_polling [OF s pol pc len,
      where cbs = "callbacks_or_empty browser_state"]
  from main web have hp: "handlePageShow polling_browser =
      startPolling (callbacks_or_empty browser_state) polling_browser"
    by simp
  from main have p: "pollers (startPolling (callbacks_or_empty browser_state) polling_browser) =
           (pollers polling_browser)
             [0 := (pollers polling_browser ! 0)\<lparr>isPolling := False, timeoutId := None\<rparr>] @
           [\<lparr>poll_orderId = state_orderId browser_state,
             expectedAttach = state_attach browser_state,
             captured = callbacks_or_empty browser_state,
             maxAttempts = 30, interval = 3000, attempts = 0, isPolling = True,
             timeoutId = Some (next_timer polling_browser)\<rparr>]"
    and t: "timers (startPolling (callbacks_or_empty browser_state) polling_browser) =
           filter (\<lambda>e. Some (fst e) \<noteq> timeoutId (pollers polling_browser ! 0))
             (timers polling_browser) @
           [(next_timer polling_browser, length (pollers polling_browser), 3000)]"
    by simp_all
  from before obtain p0 where p0: "pollers polling_browser = [p0]"
    and f: "attempts p0 = 1" "isPolling p0" "timeoutId p0 = Some 1"
    by (cases "pollers polling_browser") auto
  from before hp p t tm nt p0 f show ?thesis
    by simp
qed

subsection \<open>C5: one polling loop at a time\<close>

text \<open>
  C5. The claim: at most one polling loop is scheduling attempts at any instant. The
  code: in a browser with the page visible, the \<^verbatim>\<open>cleanup()\<close> that \<^verbatim>\<open>startPayment\<close> runs
  on the previous session calls the saved visibility handler, which starts a loop for
  the session being torn down. After a second \<^verbatim>\<open>startPayment\<close> and a focus event, the
  loop of the first order and the loop of the second are both polling, each with a
  pending timer, and each sends its query when its timer fires.
\<close>

theorem C5_two_loops_active:
  "map (\<lambda>p. (poll_orderId p, isPolling p)) (pollers second_payment) =
     [(''ORD1'', True), (''ORD2'', True)] \<and>
   timers second_payment = [(0, 0, 3000), (1, 1, 3000)] \<and>
   map_option state_orderId (state second_payment) = Some ''ORD2'' \<and>
   trace (run [TimerFires 0, TimerFires 1] second_payment) =
     [GetPaymentStatus (ByPoller 0) ''ORD1'', GetPaymentStatus (ByPoller 1) ''ORD2'']"
  by code_simp

subsection \<open>C6: the order of the checks\<close>

text \<open>
  The claim sends every response with all five fields present to the attach comparison.
  The response \<open>zero_amount\<close> has all five fields, and its attach is the expected token,
  yet the loop treats it as pending and schedules the next attempt.
\<close>

theorem C6_counterexample:
  "amount zero_amount \<noteq> None \<and> description zero_amount \<noteq> None \<and>
   createTime zero_amount \<noteq> None \<and> payTime zero_amount \<noteq> None \<and>
   attach zero_amount = Some (expectedAttach first_attempt) \<and>
   poll_decide first_attempt (Resolved zero_amount) = SetTimeout"
  by code_simp

text \<open>
  C6, as the code has it. The checks run in this order, in the polling loop and in the
  one-shot check alike: if any of amount, description, createTime, payTime, attach is
  missing, zero or empty, the payment counts as pending (the loop retries or times out;
  the one-shot check starts polling), whatever the attach token; otherwise, if the
  response's attach equals the expected token, the result is success; otherwise it is
  failure, reported at once and not retried. The decision is a function of the response,
  the expected token and the loop's counters only.
\<close>

theorem C6_classification:
  "poll_decide p (Resolved r) =
     (if blank r then
        (if maxAttempts p \<le> attempts p then CallOnTimeout
         else if isPolling p then SetTimeout else Return)
      else if attach r = Some (expectedAttach p) then CallOnSuccess r
      else CallOnFailed (Response
             \<lparr>orderId = orderId r, amount = amount r,
              description = Some order_check_failed_text,
              createTime = createTime r, payTime = None, attach = attach r\<rparr>)) \<and>
   checkPaymentStatusOnce_resume (Resolved r) (w\<lparr>state := Some s\<rparr>) =
     (if blank r then startPolling (callbacks_or_empty s) (w\<lparr>state := Some s\<rparr>)
      else if attach r = Some (state_attach s) then
        cleanup (call_optional
          (case state_callbacks s of None \<Rightarrow> None | Some c \<Rightarrow> onSuccess c)
          (Response r) (w\<lparr>state := Some s\<rparr>))
      else
        emit (Notify ToastOrderCheckFailed)
          (cleanup (call_optional
            (case state_callbacks s of None \<Rightarrow> None | Some c \<Rightarrow> onFailed c)
            (Response r) (w\<lparr>state := Some s\<rparr>))))"
  by (simp add: poll_decide_def checkPaymentStatusOnce_resume_def isPaymentComplete_iff)

subsection \<open>C7: timeout after the last attempt\<close>

text \<open>
  C7. The claim: after exactly \<^verbatim>\<open>maxAttempts\<close> consecutive incomplete results
  \<^verbatim>\<open>onTimeout\<close> fires exactly once and no status query occurs afterward; attempts are
  numbered from 1, and an incomplete result below the budget schedules the next attempt
  after \<^verbatim>\<open>interval\<close>. A loop taken by itself does all of this
  (\<open>engine_timeout_after_maxAttempts\<close>, \<open>engine_timeout_calls_back\<close>). But in a browser
  with the page visible the manager's timeout wrapper calls \<^verbatim>\<open>cleanup()\<close> first,
  \<^verbatim>\<open>cleanup()\<close> calls the saved visibility handler, and the handler starts a new loop
  for the same order. After the first incomplete result the attempt count is 1 and the
  second attempt is scheduled after 3000 ms. After 30 incomplete results the caller's
  \<^verbatim>\<open>onTimeout\<close> (function 3) has been called once, 30 queries have been sent and the
  session is gone; yet a second loop is polling with a timer pending, a 31st query is
  sent when that timer fires, and after 30 more incomplete results \<^verbatim>\<open>onTimeout\<close> has
  been called a second time.
\<close>

theorem C7_queries_after_timeout:
  "map (\<lambda>p. (attempts p, isPolling p)) (pollers polling_browser) = [(1, True)] \<and>
   timers polling_browser = [(1, 0, 3000)] \<and>
   calls_of 3 (trace timed_out_browser) = [Called 3 NoPayload] \<and>
   length (queries_in (trace timed_out_browser)) = 30 \<and>
   state timed_out_browser = None \<and>
   map (\<lambda>p. (poll_orderId p, attempts p, isPolling p)) (pollers timed_out_browser) =
     [(''ORD1'', 30, False), (''ORD1'', 0, True)] \<and>
   timers timed_out_browser = [(30, 1, 3000)] \<and>
   length (queries_in (trace (run [TimerFires 30] timed_out_browser))) = 31 \<and>
   calls_of 3 (trace (run (incomplete_rounds 60)
       (run [StartPayment ''ORD1'' ''TOK1'' 1000 cb1, Focus] (init WEB (Some False))))) =
     [Called 3 NoPayload, Called 3 NoPayload]"
  by code_simp

subsection \<open>C8: cleanup at any state\<close>

text \<open>
  C8. The claim: \<^verbatim>\<open>cleanup()\<close> is idempotent and can be called in any state with no
  adverse effect. Two calls in a row do leave what one call leaves
  (\<open>cleanup_idempotent\<close>), and without a session the call changes nothing
  (\<open>cleanup_no_session\<close>). But in a browser with the page visible and a session active,
  \<^verbatim>\<open>cleanup()\<close> calls the saved visibility handler before it drops the state, and the
  handler starts a polling loop. Before the call there is no loop and no timer; after it
  the session is gone, a loop for the order is polling with a timer pending, and the
  loop sends a status query when the timer fires.
\<close>

theorem C8_cleanup_starts_loop:
  "pollers browser_session = [] \<and> timers browser_session = [] \<and>
   state (cleanup browser_session) = None \<and>
   map (\<lambda>p. (poll_orderId p, isPolling p)) (pollers (cleanup browser_session)) =
     [(''ORD1'', True)] \<and>
   timers (cleanup browser_session) = [(0, 0, 3000)] \<and>
   trace (run [TimerFires 0] (cleanup browser_session)) =
     [GetPaymentStatus (ByPoller 0) ''ORD1'']"
  by code_simp

subsection \<open>C9: the manual check\<close>

text \<open>
  The claim has the manual check return null only when no session is active, and never
  start the polling engine. In \<open>manual_pending\<close> a session is active and the manual query
  is outstanding; when it resolves with a paid response that carries another attach
  token, and when it is rejected, the value returned is null. In \<open>manual_pending_browser\<close>
  the same has happened in a browser with the page visible, and no loop exists; when the
  query resolves with the paid response of the session, the \<^verbatim>\<open>cleanup()\<close> of the manual
  check leaves a loop polling for the order, with its first timer pending.
\<close>

theorem C9_counterexample:
  "state manual_pending \<noteq> None \<and>
   inflight manual_pending = [(0, ManualCont)] \<and>
   trace (step (QueryCompletes 0 (Resolved (paid ''TOK2''))) manual_pending) =
     [GetPaymentStatus ByManual ''ORD1'', Notify ToastOrderCheckFailed, ManualReturns None] \<and>
   trace (step (QueryCompletes 0 Rejected) manual_pending) =
     [GetPaymentStatus ByManual ''ORD1'', Notify ToastQueryFailed, ManualReturns None] \<and>
   pollers manual_pending_browser = [] \<and>
   map (\<lambda>p. (poll_orderId p, isPolling p))
     (pollers (step (QueryCompletes 0 (Resolved (paid ''TOK1''))) manual_pending_browser)) =
     [(''ORD1'', True)] \<and>
   timers (step (QueryCompletes 0 (Resolved (paid ''TOK1''))) manual_pending_browser) =
     [(0, 0, 3000)]"
  by code_simp

text \<open>
  C9, as the code has it. Without a session \<^verbatim>\<open>manualCheckPaymentStatus\<close> returns null at
  once and leaves the world as it is: no query, no other effect. With a session it sends
  one status query and does nothing else until the query completes. It then returns
  null when the query was rejected, or when the response is complete and its attach is
  not the session's (or the session is gone); in every other case it returns the
  response. What it does besides is, exactly: on a rejected query, and on a complete
  response with the session gone, the notice that the query failed; on an incomplete
  response the notice that the payment is not complete; on a complete response with
  another attach \<^verbatim>\<open>cleanup()\<close> and then the notice that the order check failed; on a
  complete response with the session's attach \<^verbatim>\<open>cleanup()\<close> and nothing else. When the
  session has no saved visibility handler, or the page is not a visible document, the
  completion adds no loop, adds no timer and sets no loop polling.
\<close>

theorem C9_manual_check:
  "(state w = None \<longrightarrow> manualCheckPaymentStatus w = (Some None, w)) \<and>
   (\<forall>s. state w = Some s \<longrightarrow>
      manualCheckPaymentStatus w =
        (None, emit (GetPaymentStatus ByManual (state_orderId s))
                 (w\<lparr>inflight := inflight w @ [(next_query w, ManualCont)],
                    next_query := Suc (next_query w)\<rparr>))) \<and>
   (fst (manualCheck_resume out w) = None \<longleftrightarrow>
      out = Rejected \<or>
      (\<exists>r. out = Resolved r \<and> isPaymentComplete r \<and>
           (\<forall>s. state w = Some s \<longrightarrow> attach r \<noteq> Some (state_attach s)))) \<and>
   (\<forall>v. fst (manualCheck_resume out w) = Some v \<longrightarrow> out = Resolved v) \<and>
   manualCheck_resume Rejected w = (None, emit (Notify ToastQueryFailed) w) \<and>
   (\<forall>r. \<not> isPaymentComplete r \<longrightarrow>
      manualCheck_resume (Resolved r) w = (Some r, emit (Notify ToastNotPaidYet) w)) \<and>
   (\<forall>r. isPaymentComplete r \<and> state w = None \<longrightarrow>
      manualCheck_resume (Resolved r) w = (None, emit (Notify ToastQueryFailed) w)) \<and>
   (\<forall>r s. isPaymentComplete r \<and> state w = Some s \<and> attach r \<noteq> Some (state_attach s) \<longrightarrow>
      manualCheck_resume (Resolved r) w =
        (None, emit (Notify ToastOrderCheckFailed) (cleanup w))) \<and>
   (\<forall>r s. isPaymentComplete r \<and> state w = Some s \<and> attach r = Some (state_attach s) \<longrightarrow>
      manualCheck_resume (Resolved r) w = (Some r, cleanup w)) \<and>
   ((\<forall>s. state w = Some s \<longrightarrow>
        visibilityChangeHandler s = None \<or> document_hidden w \<noteq> Some False) \<longrightarrow>
      length (pollers (snd (manualCheck_resume out w))) = length (pollers w) \<and>
      set (timers (snd (manualCheck_resume out w))) \<subseteq> set (timers w) \<and>
      (\<forall>i < length (pollers w).
         isPolling (pollers (snd (manualCheck_resume out w)) ! i) \<longrightarrow>
         isPolling (pollers w ! i)))"
proof (intro conjI)
  show "state w = None \<longrightarrow> manualCheckPaymentStatus w = (Some None, w)"
    by (simp add: manualCheckPaymentStatus_def)
  show "\<forall>s. state w = Some s \<longrightarrow>
      manualCheckPaymentStatus w =
        (None, emit (GetPaymentStatus ByManual (state_orderId s))
                 (w\<lparr>inflight := inflight w @ [(next_query w, ManualCont)],
                    next_query := Suc (next_query w)\<rparr>))"
    by (simp add: manualCheckPaymentStatus_def Let_def)
  show "fst (manualCheck_resume out w) = None \<longleftrightarrow>
      out = Rejected \<or>
      (\<exists>r. out = Resolved r \<and> isPaymentComplete r \<and>
           (\<forall>s. state w = Some s \<longrightarrow> attach r \<noteq> Some (state_attach s)))"
    by (cases out; cases "state w") (auto simp: manualCheck_resume_def)
  show "\<forall>v. fst (manualCheck_resume out w) = Some v \<longrightarrow> out = Resolved v"
    by (cases out; cases "state w") (auto simp: manualCheck_resume_def split: if_splits)
  show "manualCheck_resume Rejected w = (None, emit (Notify ToastQueryFailed) w)"
    by (simp add: manualCheck_resume_def)
  show "\<forall>r. \<not> isPaymentComplete r \<longrightarrow>
      manualCheck_resume (Resolved r) w = (Some r, emit (Notify ToastNotPaidYet) w)"
    by (simp add: manualCheck_resume_def)
  show "\<forall>r. isPaymentComplete r \<and> state w = None \<longrightarrow>
      manualCheck_resume (Resolved r) w = (None, emit (Notify ToastQueryFailed) w)"
    by (simp add: manualCheck_resume_def)
  show "\<forall>r s. isPaymentComplete r \<and> state w = Some s \<and> attach r \<noteq> Some (state_attach s) \<longrightarrow>
      manualCheck_resume (Resolved r) w =
        (None, emit (Notify ToastOrderCheckFailed) (cleanup w))"
    by (simp add: manualCheck_resume_def)
  show "\<forall>r s. isPaymentComplete r \<and> state w = Some s \<and> attach r = Some (state_attach s) \<longrightarrow>
      manualCheck_resume (Resolved r) w = (Some r, cleanup w)"
    by (simp add: manualCheck_resume_def)
  show "(\<forall>s. state w = Some s \<longrightarrow>
        visibilityChangeHandler s = None \<or> document_hidden w \<noteq> Some False) \<longrightarrow>
      length (pollers (snd (manualCheck_resume out w))) = length (pollers w) \<and>
      set (timers (snd (manualCheck_resume out w))) \<subseteq> set (timers w) \<and>
      (\<forall>i < length (pollers w).
         isPolling (pollers (snd (manualCheck_resume out w)) ! i) \<longrightarrow>
         isPolling (pollers w ! i))"
    using manual_check_starts_nothing [of w out] by blast
qed

theorem C9_manual_check_witness:
  "manualCheckPaymentStatus (init WEAPP None) = (Some None, init WEAPP None) \<and>
   fst (manualCheckPaymentStatus miniapp_session) = None \<and>
   trace (snd (manualCheckPaymentStatus miniapp_session)) =
     [GetPaymentStatus ByManual ''ORD1''] \<and>
   fst (manualCheck_resume (Resolved (paid ''TOK2'')) manual_pending) = None \<and>
   fst (manualCheck_resume (Resolved (paid ''TOK1'')) manual_pending) \<noteq> None \<and>
   manualCheck_resume Rejected manual_pending =
     (None, emit (Notify ToastQueryFailed) manual_pending) \<and>
   manualCheck_resume (Resolved pending) manual_pending =
     (Some pending, emit (Notify ToastNotPaidYet) manual_pending) \<and>
   manualCheck_resume (Resolved (paid ''TOK2'')) manual_pending =
     (None, emit (Notify ToastOrderCheckFailed) (cleanup manual_pending)) \<and>
   manualCheck_resume (Resolved (paid ''TOK1'')) manual_pending =
     (Some (paid ''TOK1''), cleanup manual_pending) \<and>
   length (pollers (snd (manualCheck_resume (Resolved (paid ''TOK1'')) manual_pending))) =
     length (pollers manual_pending) \<and>
   set (timers (snd (manualCheck_resume (Resolved (paid ''TOK1'')) manual_pending))) \<subseteq>
     set (timers manual_pending)"
proof -
  have n: "state (init WEAPP None) = None"
    by (simp add: init_def)
  have s: "state miniapp_session = Some miniapp_state"
    by code_simp
  have s': "state manual_pending = Some miniapp_state"
    by code_simp
  have tr: "trace miniapp_session = []"
    by code_simp
  have c: "isPaymentComplete (paid ''TOK1'')" "isPaymentComplete (paid ''TOK2'')"
    "\<not> isPaymentComplete pending"
    by (simp_all add: paid_def pending_def isPaymentComplete_def truthy_number_def
        truthy_string_def)
  have at: "attach (paid ''TOK1'') = Some (state_attach miniapp_state)"
    "attach (paid ''TOK2'') \<noteq> Some (state_attach miniapp_state)"
    "visibilityChangeHandler miniapp_state = None"
    by (simp_all add: paid_def miniapp_state_def)
  from C9_manual_check [of "init WEAPP None"] n
  have a1: "manualCheckPaymentStatus (init WEAPP None) = (Some None, init WEAPP None)"
    by simp
  from C9_manual_check [of miniapp_session] s
  have "manualCheckPaymentStatus miniapp_session =
        (None, emit (GetPaymentStatus ByManual (state_orderId miniapp_state))
                 (miniapp_session
                    \<lparr>inflight := inflight miniapp_session @
                       [(next_query miniapp_session, ManualCont)],
                     next_query := Suc (next_query miniapp_session)\<rparr>))"
    by simp
  with tr have a2: "fst (manualCheckPaymentStatus miniapp_session) = None"
    and a3: "trace (snd (manualCheckPaymentStatus miniapp_session)) =
      [GetPaymentStatus ByManual ''ORD1'']"
    by (simp_all add: emit_def miniapp_state_def)
  note main = C9_manual_check [of manual_pending]
  from main [of "Resolved (paid ''TOK2'')"] s' c at
  have a4: "fst (manualCheck_resume (Resolved (paid ''TOK2'')) manual_pending) = None"
    by simp
  from main [of "Resolved (paid ''TOK1'')"] s' c at
  have a5: "fst (manualCheck_resume (Resolved (paid ''TOK1'')) manual_pending) \<noteq> None"
    by simp
  from main [of Rejected]
  have a6: "manualCheck_resume Rejected manual_pending =
     (None, emit (Notify ToastQueryFailed) manual_pending)"
    by simp
  from main [of Rejected] c
  have a7: "manualCheck_resume (Resolved pending) manual_pending =
     (Some pending, emit (Notify ToastNotPaidYet) manual_pending)"
    by simp
  from main [of Rejected] s' c at
  have a8: "manualCheck_resume (Resolved (paid ''TOK2'')) manual_pending =
     (None, emit (Notify ToastOrderCheckFailed) (cleanup manual_pending))"
    by simp
  from main [of Rejected] s' c at
  have a9: "manualCheck_resume (Resolved (paid ''TOK1'')) manual_pending =
     (Some (paid ''TOK1''), cleanup manual_pending)"
    by simp
  from main [of "Resolved (paid ''TOK1'')"] s' at
  have a10: "length (pollers (snd (manualCheck_resume (Resolved (paid ''TOK1'')) manual_pending))) =
       length (pollers manual_pending) \<and>
     set (timers (snd (manualCheck_resume (Resolved (paid ''TOK1'')) manual_pending))) \<subseteq>
       set (timers manual_pending)"
    by simp
  from a1 a2 a3 a4 a5 a6 a7 a8 a9 a10 show ?thesis
    by simp
qed

subsection \<open>C10: truthiness, not presence\<close>

text \<open>
  C10. The completeness check tests truthiness, not presence: a response whose amount is
  0, or one of whose description, createTime, payTime, attach is the empty string, is
  not complete although the field is there. The polling loop then takes the pending
  branch (a retry while attempts remain), the one-shot check starts the polling loop,
  and the manual check reports the payment as not yet made; none of the three outcomes
  depends on the attach token, which is never compared.
\<close>

theorem C10_truthiness_not_presence:
  assumes "amount r = Some 0 \<or> description r = Some [] \<or> createTime r = Some [] \<or>
           payTime r = Some [] \<or> attach r = Some []"
  shows "\<not> isPaymentComplete r \<and>
         poll_decide p (Resolved r) =
           (if maxAttempts p \<le> attempts p then CallOnTimeout
            else if isPolling p then SetTimeout else Return) \<and>
         checkPaymentStatusOnce_resume (Resolved r) (w\<lparr>state := Some s\<rparr>) =
           startPolling (callbacks_or_empty s) (w\<lparr>state := Some s\<rparr>) \<and>
         manualCheck_resume (Resolved r) w = (Some r, emit (Notify ToastNotPaidYet) w)"
proof -
  from assms have "blank r"
    by (auto simp: blank_def)
  then have "\<not> isPaymentComplete r"
    by (simp add: isPaymentComplete_iff)
  then show ?thesis
    by (simp add: poll_decide_def checkPaymentStatusOnce_resume_def manualCheck_resume_def)
qed

theorem C10_truthiness_not_presence_witness:
  "amount zero_amount = Some 0 \<and> attach zero_amount = Some (expectedAttach first_attempt) \<and>
   \<not> isPaymentComplete zero_amount \<and>
   poll_decide first_attempt (Resolved zero_amount) = SetTimeout \<and>
   manualCheck_resume (Resolved zero_amount) miniapp_session =
     (Some zero_amount, emit (Notify ToastNotPaidYet) miniapp_session)"
proof -
  have a: "amount zero_amount = Some 0"
    by (simp add: zero_amount_def)
  have b: "attach zero_amount = Some (expectedAttach first_attempt)"
    by (simp add: zero_amount_def first_attempt_def)
  have c: "(if maxAttempts first_attempt \<le> attempts first_attempt then CallOnTimeout
            else if isPolling first_attempt then SetTimeout else Return) = SetTimeout"
    by (simp add: first_attempt_def)
  from C10_truthiness_not_presence
    [where r = zero_amount and p = first_attempt and w = miniapp_session] a b c
  show ?thesis
    by simp
qed

end
